theory Spec2Isabelle
  imports Complex_Main "HOL-Library.Word"
begin

section \<open>The EnergyDrum plugin (AuroraPlugin.cpp)\<close>

text \<open>
  A shallow embedding of \<^verbatim>\<open>src/Plugins/EnergyDrum/src/AuroraPlugin.cpp\<close>.

  Conventions of the embedding.
  \<^item> \<^verbatim>\<open>float\<close> and \<^verbatim>\<open>double\<close> are \<open>real\<close>; NaN and infinities are not modelled. In
    \<^verbatim>\<open>getRGB\<close>, whose result depends on it, and where \<^verbatim>\<open>getPluginFrame\<close> converts the
    colour index it passes to \<^verbatim>\<open>float\<close>, every operation is rounded as IEEE 754 does in
    the type C gives the operation (\<open>f32\<close> for \<^verbatim>\<open>float\<close>, \<open>f64\<close> for \<^verbatim>\<open>double\<close>, to
    nearest, ties to even, no excess precision and no fused multiply-add), and a
    conversion \<^verbatim>\<open>(int)f\<close> of a value beyond the range of \<^verbatim>\<open>int\<close>, undefined in C, is a
    fault. Elsewhere the arithmetic is exact and \<^verbatim>\<open>(int)f\<close> is truncation towards zero
    (\<open>c_int\<close>).
  \<^item> \<^verbatim>\<open>int\<close> is \<open>int\<close>. The two accumulators of \<^verbatim>\<open>getPluginFrame\<close> grow without
    bound between beats, so their signed overflow (undefined behaviour in C) is a fault
    of the model; every other \<^verbatim>\<open>int\<close> of the file stays small.
    \<^verbatim>\<open>uint16_t\<close> is \<open>16 word\<close>, \<^verbatim>\<open>uint8_t\<close> is \<open>8 word\<close>.
  \<^item> The global array \<^verbatim>\<open>sources[MAX_SOURCES]\<close> with its count \<^verbatim>\<open>nSources\<close> is the list of
    its first \<^verbatim>\<open>nSources\<close> entries; \<^verbatim>\<open>nSources\<close> is the length of the list.
  \<^item> The \<^verbatim>\<open>static\<close> variables of \<^verbatim>\<open>addSource\<close> and \<^verbatim>\<open>getPluginFrame\<close> are fields of
    the record \<open>plugin_state\<close>, passed in and returned.
  \<^item> Every call of \<^verbatim>\<open>drand48()\<close> is a parameter: the value that call returns.
  \<^item> Record fields carry a prefix (\<open>src_\<close>, \<open>st_\<close>, \<open>rgb_\<close>, \<open>hsv_\<close>), since a field
    named \<open>x\<close>, \<open>r\<close> or \<open>n\<close> would be a constant of that name.
\<close>

subsection \<open>Constants\<close>

definition MAX_SOURCES :: nat where
  "MAX_SOURCES = 15"

definition ENERGY_THRESHOLD :: int where
  "ENERGY_THRESHOLD = 50000"

definition MAX_DIFFUSION_AGE :: real where
  "MAX_DIFFUSION_AGE = 15"

definition MIN_SIMULTANEOUS_COLOURS :: nat where
  "MIN_SIMULTANEOUS_COLOURS = 2"

definition N_FFT_BINS :: nat where
  "N_FFT_BINS = 32"

definition BEAT_COUNT :: int where
  "BEAT_COUNT = 8"

definition FRACTION_COLOUR_TO_KEEP :: real where
  "FRACTION_COLOUR_TO_KEEP = 5 / 100"

definition TRANSITION_TIME :: int where
  "TRANSITION_TIME = 1"

definition INT_MAX :: int where
  "INT_MAX = 2147483647"

definition INT_MIN :: int where
  "INT_MIN = - 2147483648"

subsection \<open>C arithmetic\<close>

definition c_int :: "real \<Rightarrow> int" where
  \<comment> \<open>\<^verbatim>\<open>(int)f\<close>: the fractional part is discarded.\<close>
  "c_int f = (if 0 \<le> f then \<lfloor>f\<rfloor> else \<lceil>f\<rceil>)"

definition c_div :: "int \<Rightarrow> int \<Rightarrow> int" where
  \<comment> \<open>\<^verbatim>\<open>a / b\<close> on \<^verbatim>\<open>int\<close>, for \<open>b \<noteq> 0\<close>: the quotient is truncated towards zero.\<close>
  "c_div a b = sgn a * sgn b * (\<bar>a\<bar> div \<bar>b\<bar>)"

definition c_mod :: "int \<Rightarrow> int \<Rightarrow> int" where
  \<comment> \<open>\<^verbatim>\<open>a % b\<close> on \<^verbatim>\<open>int\<close>, for \<open>b \<noteq> 0\<close>: the sign of the dividend.\<close>
  "c_mod a b = sgn a * (\<bar>a\<bar> mod \<bar>b\<bar>)"

subsection \<open>IEEE 754 rounding\<close>

text \<open>
  A finite binary floating-point value of precision \<open>p\<close> is a whole multiple of the
  quantum \<open>2 ^ (e - p + 1)\<close> of its binade \<open>e\<close>, the binade being at least \<open>emin\<close>
  (below it the values are subnormal). \<open>round_to\<close> takes a real to the nearest such
  value, a tie to the one with an even multiple. Single precision has \<open>p = 24\<close> and
  \<open>emin = - 126\<close>, double precision \<open>p = 53\<close> and \<open>emin = - 1022\<close>. Overflow to infinity
  is not modelled: the values of \<^verbatim>\<open>getRGB\<close> stay far below it.
\<close>

definition pow2 :: "int \<Rightarrow> real" where
  "pow2 e = (if 0 \<le> e then 2 ^ nat e else 1 / 2 ^ nat (- e))"

definition rne :: "real \<Rightarrow> int" where
  \<comment> \<open>the nearest integer, a tie to the even one\<close>
  "rne y =
     (if y - real_of_int \<lfloor>y\<rfloor> < 1 / 2 then \<lfloor>y\<rfloor>
      else if 1 / 2 < y - real_of_int \<lfloor>y\<rfloor> then \<lfloor>y\<rfloor> + 1
      else if even \<lfloor>y\<rfloor> then \<lfloor>y\<rfloor> else \<lfloor>y\<rfloor> + 1)"

definition binade :: "real \<Rightarrow> int" where
  \<comment> \<open>the \<open>e\<close> with \<open>2 ^ e \<le> \<bar>x\<bar> < 2 ^ (e + 1)\<close>, for \<open>x \<noteq> 0\<close>\<close>
  "binade x = \<lfloor>log 2 \<bar>x\<bar>\<rfloor>"

definition round_to :: "int \<Rightarrow> int \<Rightarrow> real \<Rightarrow> real" where
  "round_to p emin x =
     (if x = 0 then 0
      else let q = pow2 (max (binade x) emin - p + 1)
           in real_of_int (rne (x / q)) * q)"

definition f32 :: "real \<Rightarrow> real" where
  "f32 x = round_to 24 (- 126) x"

definition f64 :: "real \<Rightarrow> real" where
  "f64 x = round_to 53 (- 1022) x"

definition int_cast_defined :: "real \<Rightarrow> bool" where
  \<comment> \<open>the value truncated towards zero is an \<^verbatim>\<open>int\<close>\<close>
  "int_cast_defined f = (- 2147483649 < f \<and> f < 2147483648)"

subsection \<open>Data\<close>

record RGB_t =
  rgb_R :: int
  rgb_G :: int
  rgb_B :: int

record HSV_t =
  hsv_H :: int
  hsv_S :: int
  hsv_V :: int

record Panel =
  panelId :: int
  centroid_x :: real
  centroid_y :: real

text \<open>The struct \<^verbatim>\<open>source_t\<close>.\<close>

record source_t =
  src_x :: real
  src_y :: real
  src_vx :: real
  src_vy :: real
  src_diffusion_age :: real
  src_R :: int
  src_G :: int
  src_B :: int
  src_intensity :: real
  src_speed :: real
  src_energy :: "16 word"

text \<open>
  What \<^verbatim>\<open>initPlugin\<close> saves: the palette (\<^verbatim>\<open>paletteColours\<close>, \<^verbatim>\<open>nColours\<close>) and the layout
  (\<^verbatim>\<open>layoutData\<close>: the panels and \<^verbatim>\<open>nPanels\<close>).
\<close>

record plugin_env =
  paletteColours :: "RGB_t list"
  panels :: "Panel list"

definition nColours :: "plugin_env \<Rightarrow> int" where
  "nColours env = int (length (paletteColours env))"

definition nPanels :: "plugin_env \<Rightarrow> int" where
  "nPanels env = int (length (panels env))"

text \<open>
  The mutable globals: \<^verbatim>\<open>sources\<close>/\<^verbatim>\<open>nSources\<close>, the statics \<^verbatim>\<open>r\<close> and \<^verbatim>\<open>count\<close> of
  \<^verbatim>\<open>addSource\<close>, the statics \<^verbatim>\<open>maxBinIndexSum\<close> and \<^verbatim>\<open>n\<close> of \<^verbatim>\<open>getPluginFrame\<close>.
\<close>

record plugin_state =
  st_sources :: "source_t list"
  st_r :: int
  st_count :: int
  st_maxBinIndexSum :: int
  st_n :: int

definition init_state :: plugin_state where
  "init_state = \<lparr>st_sources = [], st_r = 0, st_count = 0, st_maxBinIndexSum = 0, st_n = 0\<rparr>"

datatype fault =
    PanelIndexOutOfRange  \<comment> \<open>\<^verbatim>\<open>layoutData->panels[r]\<close> read outside the layout\<close>
  | FloatToIntOutOfRange  \<comment> \<open>\<^verbatim>\<open>(int)f\<close> in \<^verbatim>\<open>getRGB\<close> with \<open>f\<close> beyond the range of \<^verbatim>\<open>int\<close>\<close>
  | SignedOverflow        \<comment> \<open>an accumulator of \<^verbatim>\<open>getPluginFrame\<close> left the range of \<^verbatim>\<open>int\<close>\<close>
  | DivisionByZero        \<comment> \<open>\<^verbatim>\<open>maxBinIndexSum / n\<close> with \<^verbatim>\<open>n == 0\<close>\<close>

subsection \<open>removeSource\<close>

text \<open>
  \<^verbatim>\<open>memmove(sources + idx, sources + idx + 1, ...); nSources--\<close>: the entries after
  \<open>idx\<close> move down by one. Both callers pass an index below \<^verbatim>\<open>nSources\<close>.
\<close>

definition removeSource :: "nat \<Rightarrow> source_t list \<Rightarrow> source_t list" where
  "removeSource idx srcs = take idx srcs @ drop (Suc idx) srcs"

subsection \<open>distance\<close>

definition distance :: "real \<Rightarrow> real \<Rightarrow> real \<Rightarrow> real \<Rightarrow> real" where
  "distance x1 y1 x2 y2 = (let dx = x2 - x1; dy = y2 - y1 in sqrt (dx * dx + dy * dy))"

subsection \<open>getRGB\<close>

text \<open>
  With a palette of two stops or more, \<^verbatim>\<open>(int)colour\<close> comes first. In
  \<^verbatim>\<open>(1.0 - fraction) * R1 + fraction * R2\<close> the literal \<^verbatim>\<open>1.0\<close> is a \<^verbatim>\<open>double\<close>: the
  difference, the first product and the sum are \<^verbatim>\<open>double\<close> operations, the second
  product is a \<^verbatim>\<open>float\<close> operation, and the assignment to the \<^verbatim>\<open>float\<close> \<^verbatim>\<open>R\<close> rounds
  once more.
\<close>

definition getRGB :: "plugin_env \<Rightarrow> real \<Rightarrow> fault + (int \<times> int \<times> int)" where
  "getRGB env colour =
     (if nColours env = 0 then Inr (128, 128, 128)
      else if nColours env = 1 then
        Inr (rgb_R (paletteColours env ! 0), rgb_G (paletteColours env ! 0),
             rgb_B (paletteColours env ! 0))
      else if \<not> int_cast_defined colour then Inl FloatToIntOutOfRange
      else
        let idx = c_int colour;
            fraction = f32 (colour - f32 (real_of_int idx));
            (R, G, B) =
              (if colour \<le> 0 then
                 (f32 (real_of_int (rgb_R (paletteColours env ! 0))),
                  f32 (real_of_int (rgb_G (paletteColours env ! 0))),
                  f32 (real_of_int (rgb_B (paletteColours env ! 0))))
               else if idx < nColours env - 1 then
                 let R1 = f32 (real_of_int (rgb_R (paletteColours env ! nat idx)));
                     G1 = f32 (real_of_int (rgb_G (paletteColours env ! nat idx)));
                     B1 = f32 (real_of_int (rgb_B (paletteColours env ! nat idx)));
                     R2 = f32 (real_of_int (rgb_R (paletteColours env ! nat (idx + 1))));
                     G2 = f32 (real_of_int (rgb_G (paletteColours env ! nat (idx + 1))));
                     B2 = f32 (real_of_int (rgb_B (paletteColours env ! nat (idx + 1))))
                 in (f32 (f64 (f64 (f64 (1 - fraction) * R1) + f32 (fraction * R2))),
                     f32 (f64 (f64 (f64 (1 - fraction) * G1) + f32 (fraction * G2))),
                     f32 (f64 (f64 (f64 (1 - fraction) * B1) + f32 (fraction * B2))))
               else
                 (f32 (real_of_int (rgb_R (paletteColours env ! nat (nColours env - 1)))),
                  f32 (real_of_int (rgb_G (paletteColours env ! nat (nColours env - 1)))),
                  f32 (real_of_int (rgb_B (paletteColours env ! nat (nColours env - 1))))))
        in if int_cast_defined R \<and> int_cast_defined G \<and> int_cast_defined B
           then Inr (c_int R, c_int G, c_int B)
           else Inl FloatToIntOutOfRange)"

subsection \<open>addSource\<close>

text \<open>
  The first loop of \<^verbatim>\<open>addSource\<close>: the first source at the spawn position is reset and the
  function returns (\<open>Some\<close> of the pool after the merge); \<open>None\<close> when the loop ends
  without a match.
\<close>

fun merge_loop :: "real \<Rightarrow> real \<Rightarrow> real \<Rightarrow> real \<Rightarrow> source_t list \<Rightarrow> source_t list option" where
  "merge_loop x y intensity speed [] = None"
| "merge_loop x y intensity speed (s # srcs) =
     (if src_x s = x \<and> src_y s = y then
        Some (s\<lparr>src_diffusion_age := 0, src_intensity := intensity, src_speed := speed\<rparr> # srcs)
      else map_option ((#) s) (merge_loop x y intensity speed srcs))"

text \<open>
  The second loop: \<^verbatim>\<open>for (i = nSources; i > 0; i--) if (intensity >= sources[i - 1].intensity) break;\<close>
  The result is the value of \<open>i\<close> after the loop, started at \<open>i\<close>.
\<close>

fun insert_index :: "real \<Rightarrow> source_t list \<Rightarrow> nat \<Rightarrow> nat" where
  "insert_index intensity srcs 0 = 0"
| "insert_index intensity srcs (Suc j) =
     (if intensity \<ge> src_intensity (srcs ! j) then Suc j
      else insert_index intensity srcs j)"

text \<open>
  The draw \<open>u\<close> is what \<^verbatim>\<open>drand48()\<close> returns if this call reaches it. The fields \<^verbatim>\<open>vx\<close> and
  \<^verbatim>\<open>vy\<close> are never written: every slot of the static array keeps its initial zero.
\<close>

definition addSource ::
  "plugin_env \<Rightarrow> real \<Rightarrow> real \<Rightarrow> real \<Rightarrow> real \<Rightarrow> 16 word \<Rightarrow> plugin_state \<Rightarrow> fault + plugin_state"
where
  "addSource env u colour intensity speed energy st =
     (if st_r st < 0 \<or> nPanels env \<le> st_r st then Inl PanelIndexOutOfRange
      else
        let x = centroid_x (panels env ! nat (st_r st));
            y = centroid_y (panels env ! nat (st_r st));
            count1 = st_count st + 1;
            (r', count2) =
              (if count1 \<ge> BEAT_COUNT
               then (c_int (u * real_of_int (nPanels env) - 1), 0)
               else (st_r st, count1))
        in case getRGB env colour of
             Inl e \<Rightarrow> Inl e
           | Inr (R0, G0, B0) \<Rightarrow>
               let R = c_int (real_of_int R0 * intensity);
                   G = c_int (real_of_int G0 * intensity);
                   B = c_int (real_of_int B0 * intensity);
                   srcs1 = (if length (st_sources st) \<ge> MAX_SOURCES
                            then removeSource 0 (st_sources st) else st_sources st)
               in case merge_loop x y intensity speed srcs1 of
                    Some merged \<Rightarrow>
                      Inr (st\<lparr>st_sources := merged, st_r := r', st_count := count2\<rparr>)
                  | None \<Rightarrow>
                      let i = insert_index intensity srcs1 (length srcs1);
                          new = \<lparr>src_x = x, src_y = y, src_vx = 0, src_vy = 0,
                                 src_diffusion_age = 0, src_R = R, src_G = G, src_B = B,
                                 src_intensity = intensity, src_speed = speed,
                                 src_energy = energy\<rparr>;
                          count3 = (if uint energy \<ge> ENERGY_THRESHOLD then BEAT_COUNT
                                    else count2)
                      in Inr (st\<lparr>st_sources := take i srcs1 @ new # drop i srcs1,
                                 st_r := r', st_count := count3\<rparr>))"

subsection \<open>renderPanel\<close>

text \<open>
  \<^verbatim>\<open>RGBtoHSV\<close> and \<^verbatim>\<open>HSVtoRGB\<close> are declared in \<^verbatim>\<open>ColorUtils.h\<close> and defined outside this
  file: they are parameters of the model. The initialiser \<^verbatim>\<open>(RGB_t){(int)R, (int)G, (int)B}\<close>
  and the operator \<^verbatim>\<open>%\<close> on \<^verbatim>\<open>hsv.H\<close> and \<^verbatim>\<open>hsv.V\<close> fix the fields as integers.
\<close>

record ColorUtils =
  RGBtoHSV :: "RGB_t \<Rightarrow> HSV_t"
  HSVtoRGB :: "HSV_t \<Rightarrow> RGB_t"

text \<open>The factor of one source at distance \<open>d\<close>, as the loop body computes it.\<close>

definition source_factor :: "real \<Rightarrow> source_t \<Rightarrow> real" where
  "source_factor d s =
     (let diffusion_age = src_diffusion_age s;
          factor0 =
            (if uint (src_energy s) \<ge> ENERGY_THRESHOLD then
               let d2 = d * (15 / 1000);
                   d2a = d2 - diffusion_age * (2 / 10);
                   d2b = (if d2a < 0 then 0 else d2a);
                   f = 1 / (d2b * 2 + 1);
                   fa = (if f > 1 then 1 else f);
                   fb = (if fa < 0 then 0 else fa)
               in fb
             else 1 / (d * (8 / 1000) + 1));
          factor1 =
            (if diffusion_age \<ge> MAX_DIFFUSION_AGE then 0
             else factor0 * (1 - diffusion_age / MAX_DIFFUSION_AGE));
          factor2 =
            (if factor1 < FRACTION_COLOUR_TO_KEEP then FRACTION_COLOUR_TO_KEEP else factor1)
      in factor2)"

text \<open>One pass of the loop over the sources: the working colour before and after.\<close>

definition render_source ::
  "ColorUtils \<Rightarrow> Panel \<Rightarrow> real \<times> real \<times> real \<Rightarrow> source_t \<Rightarrow> real \<times> real \<times> real"
where
  "render_source cu panel c s =
     (case c of (R, G, B) \<Rightarrow>
        let d = distance (centroid_x panel) (centroid_y panel) (src_x s) (src_y s);
            factor = source_factor d s;
            R1 = R * (1 - factor) + real_of_int (src_R s) * factor;
            G1 = G * (1 - factor) + real_of_int (src_G s) * factor;
            B1 = B * (1 - factor) + real_of_int (src_B s) * factor;
            hsv = RGBtoHSV cu \<lparr>rgb_R = c_int R1, rgb_G = c_int G1, rgb_B = c_int B1\<rparr>;
            d_factor = c_int (d * (10 / 100));
            hsv1 = hsv\<lparr>hsv_H := c_mod (hsv_H hsv + d_factor) 360\<rparr>;
            hsv2 = hsv1\<lparr>hsv_V := c_mod (hsv_V hsv1 + 10) 360\<rparr>;
            rgb = HSVtoRGB cu hsv2
        in (real_of_int (rgb_R rgb), real_of_int (rgb_G rgb), real_of_int (rgb_B rgb)))"

definition renderPanel :: "ColorUtils \<Rightarrow> Panel \<Rightarrow> source_t list \<Rightarrow> int \<times> int \<times> int" where
  "renderPanel cu panel srcs =
     (case foldl (render_source cu panel) (0, 0, 0) srcs of (R, G, B) \<Rightarrow>
        let returnR = c_int R; returnG = c_int G; returnB = c_int B
        in ((if returnR > 255 then 255 else returnR),
            (if returnG > 255 then 255 else returnG),
            (if returnB > 255 then 255 else returnB)))"

subsection \<open>diffuseSources\<close>

definition age_sources :: "source_t list \<Rightarrow> source_t list" where
  \<comment> \<open>the first loop: \<^verbatim>\<open>sources[i].diffusion_age += sources[i].speed\<close>\<close>
  "age_sources srcs =
     map (\<lambda>s. s\<lparr>src_diffusion_age := src_diffusion_age s + src_speed s\<rparr>) srcs"

text \<open>
  The second loop, from index \<open>i\<close>: after \<^verbatim>\<open>removeSource(i); i--;\<close> the increment of the
  \<^verbatim>\<open>for\<close> brings \<open>i\<close> back to the same index, and \<^verbatim>\<open>nSources\<close> is read again at every test.
\<close>

function prune_loop :: "nat \<Rightarrow> source_t list \<Rightarrow> source_t list" where
  "prune_loop i srcs =
     (if i < length srcs then
        (if src_diffusion_age (srcs ! i) > MAX_DIFFUSION_AGE
         then prune_loop i (removeSource i srcs)
         else prune_loop (Suc i) srcs)
      else srcs)"
  by pat_completeness auto
termination
  by (relation "measure (\<lambda>(i, srcs). length srcs - i)") (auto simp: removeSource_def)

declare prune_loop.simps [simp del]

definition diffuseSources :: "source_t list \<Rightarrow> source_t list" where
  "diffuseSources srcs =
     (let aged = age_sources srcs
      in if length aged > MIN_SIMULTANEOUS_COLOURS then prune_loop 0 aged else aged)"

subsection \<open>getPluginFrame\<close>

text \<open>What the sound module returns during one call of \<^verbatim>\<open>getPluginFrame\<close>.\<close>

record features =
  getFftBins :: "nat \<Rightarrow> 8 word"
  getEnergy :: "16 word"
  getIsBeat :: bool
  getIsOnset :: bool
  getTempo :: int

record Frame_t =
  fr_panelId :: int
  fr_r :: int
  fr_g :: int
  fr_b :: int
  fr_transTime :: int

definition max_bin_step :: "(nat \<Rightarrow> 8 word) \<Rightarrow> int \<times> int \<Rightarrow> nat \<Rightarrow> int \<times> int" where
  "max_bin_step fftBins mb i =
     (case mb of (maxBin, maxBinIndex) \<Rightarrow>
        if uint (fftBins i) > maxBin then (uint (fftBins i), int i) else (maxBin, maxBinIndex))"

definition strongest_bin :: "(nat \<Rightarrow> 8 word) \<Rightarrow> int" where
  "strongest_bin fftBins = snd (foldl (max_bin_step fftBins) (0, 0) [0..<N_FFT_BINS])"

text \<open>
  The spawn part of a tick: the accumulators, then the beat branch or the onset branch.
  \<open>u_colour\<close> is the draw of the onset branch's argument, \<open>u_panel\<close> the draw inside
  \<^verbatim>\<open>addSource\<close>. The beat branch computes \<open>speed\<close> and passes the literal \<^verbatim>\<open>1.5\<close>.
\<close>

definition spawn_on_tick ::
  "plugin_env \<Rightarrow> features \<Rightarrow> real \<Rightarrow> real \<Rightarrow> plugin_state \<Rightarrow> fault + plugin_state"
where
  "spawn_on_tick env ft u_colour u_panel st =
     (let maxBinIndex = strongest_bin (getFftBins ft);
          sum1 = st_maxBinIndexSum st + maxBinIndex;
          n1 = st_n st + 1
      in if sum1 > INT_MAX \<or> sum1 < INT_MIN \<or> n1 > INT_MAX then Inl SignedOverflow
         else
           let energy = getEnergy ft
           in if getIsBeat ft then
                if n1 = 0 then Inl DivisionByZero
                else if sum1 = INT_MIN \<and> n1 = - 1 then Inl SignedOverflow
                else
                  let maxBinIndex1 = c_div sum1 n1;
                      st1 = st\<lparr>st_maxBinIndexSum := 0, st_n := 0\<rparr>;
                      colour = c_div (maxBinIndex1 * nColours env) (c_div (int N_FFT_BINS) 4);
                      speed0 = real_of_int (getTempo ft) / 50;
                      speed = (if speed0 < 2 / 10 then 2 / 10 else speed0);
                      intensity = 1
                  in addSource env u_panel (f32 (real_of_int colour)) intensity (15 / 10) energy
                       st1
              else if getIsOnset ft then
                addSource env u_panel (f32 (f64 (u_colour * real_of_int (nColours env - 1))))
                  (7 / 10) (8 / 10) energy
                  (st\<lparr>st_maxBinIndexSum := sum1, st_n := n1\<rparr>)
              else Inr (st\<lparr>st_maxBinIndexSum := sum1, st_n := n1\<rparr>))"

definition render_frames :: "ColorUtils \<Rightarrow> plugin_env \<Rightarrow> source_t list \<Rightarrow> Frame_t list" where
  "render_frames cu env srcs =
     map (\<lambda>p. case renderPanel cu p srcs of (R, G, B) \<Rightarrow>
            \<lparr>fr_panelId = panelId p, fr_r = R, fr_g = G, fr_b = B,
             fr_transTime = TRANSITION_TIME\<rparr>)
         (panels env)"

definition getPluginFrame ::
  "ColorUtils \<Rightarrow> plugin_env \<Rightarrow> features \<Rightarrow> real \<Rightarrow> real \<Rightarrow> plugin_state
   \<Rightarrow> fault + (Frame_t list \<times> plugin_state)"
where
  "getPluginFrame cu env ft u_colour u_panel st =
     (case spawn_on_tick env ft u_colour u_panel st of
        Inl e \<Rightarrow> Inl e
      | Inr st2 \<Rightarrow>
          Inr (render_frames cu env (st_sources st2),
               st2\<lparr>st_sources := diffuseSources (st_sources st2)\<rparr>))"

text \<open>The states the plugin can be in: the initial one, and any state a tick returns.\<close>

inductive reachable :: "ColorUtils \<Rightarrow> plugin_env \<Rightarrow> plugin_state \<Rightarrow> bool"
  for cu :: ColorUtils and env :: plugin_env
where
  reachable_init: "reachable cu env init_state"
| reachable_tick:
    "reachable cu env st \<Longrightarrow>
     getPluginFrame cu env ft u_colour u_panel st = Inr (frames, st') \<Longrightarrow>
     reachable cu env st'"

subsection \<open>Auxiliary notions of the statements\<close>

definition rgb_triple :: "RGB_t \<Rightarrow> int \<times> int \<times> int" where
  "rgb_triple c = (rgb_R c, rgb_G c, rgb_B c)"

text \<open>
  A palette on which the conversions of \<^verbatim>\<open>getRGB\<close> from \<^verbatim>\<open>int\<close> to \<^verbatim>\<open>float\<close> are exact:
  at most \<open>2 ^ 24\<close> stops, every channel of magnitude at most \<open>2 ^ 24\<close>.
\<close>

definition channel_exact :: "RGB_t \<Rightarrow> bool" where
  "channel_exact c =
     (\<bar>rgb_R c\<bar> \<le> 16777216 \<and> \<bar>rgb_G c\<bar> \<le> 16777216 \<and> \<bar>rgb_B c\<bar> \<le> 16777216)"

definition palette_exact :: "plugin_env \<Rightarrow> bool" where
  "palette_exact env =
     (length (paletteColours env) \<le> 16777216 \<and> list_all channel_exact (paletteColours env))"

text \<open>
  One channel of the interpolation between the stops \<open>c1\<close> and \<open>c2\<close>, as \<^verbatim>\<open>getRGB\<close>
  computes \<^verbatim>\<open>(1.0 - fraction) * R1 + fraction * R2\<close> into a \<^verbatim>\<open>float\<close>.
\<close>

definition blend_channel :: "real \<Rightarrow> int \<Rightarrow> int \<Rightarrow> real" where
  "blend_channel fraction c1 c2 =
     f32 (f64 (f64 (f64 (1 - fraction) * real_of_int c1) + f32 (fraction * real_of_int c2)))"

text \<open>A palette of three stops and a layout of three panels, for the concrete runs.\<close>

definition demo_palette :: "RGB_t list" where
  "demo_palette =
     [\<lparr>rgb_R = 10, rgb_G = 20, rgb_B = 30\<rparr>,
      \<lparr>rgb_R = 20, rgb_G = 40, rgb_B = 61\<rparr>,
      \<lparr>rgb_R = 200, rgb_G = 100, rgb_B = 50\<rparr>]"

definition demo_panels :: "Panel list" where
  "demo_panels =
     [\<lparr>panelId = 101, centroid_x = 0, centroid_y = 0\<rparr>,
      \<lparr>panelId = 102, centroid_x = 75, centroid_y = 43\<rparr>,
      \<lparr>panelId = 103, centroid_x = 150, centroid_y = 0\<rparr>]"

definition demo_env :: plugin_env where
  "demo_env = \<lparr>paletteColours = demo_palette, panels = demo_panels\<rparr>"

text \<open>
  The position \<^verbatim>\<open>addSource\<close> resolves when it is called in state \<open>st\<close>: the centroid of
  \<^verbatim>\<open>layoutData->panels[r]\<close>, read before the counter is touched.
\<close>

definition spawn_position :: "plugin_env \<Rightarrow> plugin_state \<Rightarrow> real \<times> real" where
  "spawn_position env st =
     (centroid_x (panels env ! nat (st_r st)), centroid_y (panels env ! nat (st_r st)))"

definition src_position :: "source_t \<Rightarrow> real \<times> real" where
  "src_position s = (src_x s, src_y s)"

text \<open>
  The parts of one \<^verbatim>\<open>addSource\<close> call, named for the statements: the pool after the
  capacity test, the statics \<^verbatim>\<open>r\<close> and \<^verbatim>\<open>count\<close> after the counter test, and the entry
  the call writes when it inserts.
\<close>

definition evict_if_full :: "source_t list \<Rightarrow> source_t list" where
  "evict_if_full srcs = (if length srcs \<ge> MAX_SOURCES then removeSource 0 srcs else srcs)"

definition rolled_r :: "plugin_env \<Rightarrow> real \<Rightarrow> plugin_state \<Rightarrow> int" where
  "rolled_r env u st =
     (if st_count st + 1 \<ge> BEAT_COUNT then c_int (u * real_of_int (nPanels env) - 1)
      else st_r st)"

definition rolled_count :: "plugin_state \<Rightarrow> int" where
  "rolled_count st = (if st_count st + 1 \<ge> BEAT_COUNT then 0 else st_count st + 1)"

definition new_source ::
  "plugin_env \<Rightarrow> int \<times> int \<times> int \<Rightarrow> real \<Rightarrow> real \<Rightarrow> 16 word \<Rightarrow> plugin_state \<Rightarrow> source_t"
where
  "new_source env rgb intensity speed energy st =
     \<lparr>src_x = fst (spawn_position env st), src_y = snd (spawn_position env st),
      src_vx = 0, src_vy = 0, src_diffusion_age = 0,
      src_R = c_int (real_of_int (fst rgb) * intensity),
      src_G = c_int (real_of_int (fst (snd rgb)) * intensity),
      src_B = c_int (real_of_int (snd (snd rgb)) * intensity),
      src_intensity = intensity, src_speed = speed, src_energy = energy\<rparr>"

text \<open>
  A sequence of \<^verbatim>\<open>addSource\<close> calls: each call is its draw and its four arguments; the run
  stops at the first fault.
\<close>

type_synonym source_call = "real \<times> real \<times> real \<times> real \<times> 16 word"

fun addSource_calls :: "plugin_env \<Rightarrow> source_call list \<Rightarrow> plugin_state \<Rightarrow> fault + plugin_state" where
  "addSource_calls env [] st = Inr st"
| "addSource_calls env ((u, colour, intensity, speed, energy) # calls) st =
     (case addSource env u colour intensity speed energy st of
        Inl e \<Rightarrow> Inl e
      | Inr st' \<Rightarrow> addSource_calls env calls st')"

text \<open>
  A sequence of ticks: each tick is what the sound module returns and the two draws; the
  frames are dropped, the run stops at the first fault.
\<close>

type_synonym tick_input = "features \<times> real \<times> real"

fun ticks ::
  "ColorUtils \<Rightarrow> plugin_env \<Rightarrow> tick_input list \<Rightarrow> plugin_state \<Rightarrow> fault + plugin_state"
where
  "ticks cu env [] st = Inr st"
| "ticks cu env ((ft, u_colour, u_panel) # inputs) st =
     (case getPluginFrame cu env ft u_colour u_panel st of
        Inl e \<Rightarrow> Inl e
      | Inr (frames, st') \<Rightarrow> ticks cu env inputs st')"

text \<open>Concrete pools and inputs of the runs below.\<close>

definition mk_source :: "real \<Rightarrow> real \<Rightarrow> real \<Rightarrow> real \<Rightarrow> real \<Rightarrow> source_t" where
  "mk_source x y age intensity speed =
     \<lparr>src_x = x, src_y = y, src_vx = 0, src_vy = 0, src_diffusion_age = age,
      src_R = 10, src_G = 20, src_B = 30, src_intensity = intensity, src_speed = speed,
      src_energy = 0\<rparr>"

definition onset_source :: "real \<Rightarrow> real \<Rightarrow> real \<Rightarrow> source_t" where
  \<comment> \<open>what an onset of energy 60000 creates from the first stop of \<open>demo_palette\<close>\<close>
  "onset_source x y age =
     \<lparr>src_x = x, src_y = y, src_vx = 0, src_vy = 0, src_diffusion_age = age,
      src_R = 7, src_G = 14, src_B = 21, src_intensity = 7 / 10, src_speed = 8 / 10,
      src_energy = 60000\<rparr>"

definition pool_two_onsets :: "source_t list" where
  \<comment> \<open>two onset sources, at panel 0 and at panel 1 of \<open>demo_panels\<close>\<close>
  "pool_two_onsets = [onset_source 0 0 (24 / 10), onset_source 75 43 (8 / 10)]"

definition two_onsets_state :: plugin_state where
  "two_onsets_state =
     \<lparr>st_sources = pool_two_onsets, st_r = 0, st_count = 0, st_maxBinIndexSum = 0,
      st_n = 4\<rparr>"

text \<open>A layout of sixteen panels in a row, and a pool of fifteen sources on its panels.\<close>

definition row_panel :: "int \<Rightarrow> Panel" where
  "row_panel k = \<lparr>panelId = 200 + k, centroid_x = 75 * real_of_int k, centroid_y = 0\<rparr>"

definition row_env :: plugin_env where
  "row_env =
     \<lparr>paletteColours = demo_palette,
      panels = map row_panel [0, 1, 2, 3, 4, 5, 6, 7, 8, 9, 10, 11, 12, 13, 14, 15]\<rparr>"

definition onset_at :: "int \<Rightarrow> source_t" where
  \<comment> \<open>an onset source on panel \<open>k\<close> of the row\<close>
  "onset_at k = onset_source (75 * real_of_int k) 0 (8 / 10)"

definition pool_full :: "source_t list" where
  \<comment> \<open>fifteen sources; the one at index 1 sits on panel 0\<close>
  "pool_full = map onset_at [14, 0, 1, 2, 3, 4, 5, 6, 7, 8, 9, 10, 11, 12, 13]"

text \<open>
  A row of seventeen panels and a run of \<^verbatim>\<open>addSource\<close> calls on it from the empty pool.
  Fourteen times, a call of intensity 1.0 and energy 60000 inserts a source on the next
  panel and the following call merges into it, lowers it to 0.7 (the first one apart)
  and draws the next panel. Eight calls on panel 14 follow: seven of intensity 0.5, of
  which the first fills the pool at index 0 and the others replace that entry, then one
  of intensity 1.0 that replaces it at the end of the pool and draws panel 15.
\<close>

definition long_row_env :: plugin_env where
  "long_row_env =
     \<lparr>paletteColours = demo_palette,
      panels = map row_panel [0, 1, 2, 3, 4, 5, 6, 7, 8, 9, 10, 11, 12, 13, 14, 15, 16]\<rparr>"

definition insert_then_merge :: "int \<Rightarrow> source_call list" where
  "insert_then_merge k =
     [(0, 0, 1, 15 / 10, 60000),
      (real_of_int (2 * k + 5) / 34, 0, (if k = 0 then 1 else 7 / 10), 8 / 10, 0)]"

definition calls_to_full :: "source_call list" where
  "calls_to_full =
     concat (map insert_then_merge [0, 1, 2, 3, 4, 5, 6, 7, 8, 9, 10, 11, 12, 13])
     @ replicate 7 (0, 0, 1 / 2, 8 / 10, 0)
     @ [(33 / 34, 0, 1, 15 / 10, 0)]"

definition row_source :: "int \<Rightarrow> int \<Rightarrow> real \<Rightarrow> real \<Rightarrow> 16 word \<Rightarrow> source_t" where
  \<comment> \<open>a source of age 0 on panel \<open>k\<close> of the row, its colour a multiple of (1, 2, 3)\<close>
  "row_source k c intensity speed energy =
     \<lparr>src_x = 75 * real_of_int k, src_y = 0, src_vx = 0, src_vy = 0, src_diffusion_age = 0,
      src_R = c, src_G = 2 * c, src_B = 3 * c, src_intensity = intensity, src_speed = speed,
      src_energy = energy\<rparr>"

definition merged_at :: "int \<Rightarrow> source_t" where
  "merged_at k = row_source k 10 (7 / 10) (8 / 10) 60000"

definition pool_unordered :: "source_t list" where
  \<comment> \<open>fifteen sources, of intensities 1.0, thirteen times 0.7, and 1.0\<close>
  "pool_unordered =
     row_source 0 10 1 (8 / 10) 60000
     # map merged_at [1, 2, 3, 4, 5, 6, 7, 8, 9, 10, 11, 12, 13]
     @ [row_source 14 10 1 (15 / 10) 0]"

definition unordered_state :: plugin_state where
  "unordered_state =
     \<lparr>st_sources = pool_unordered, st_r = 15, st_count = 0, st_maxBinIndexSum = 0,
      st_n = 0\<rparr>"

definition onset_features :: "16 word \<Rightarrow> features" where
  \<comment> \<open>a tick with an onset and no beat, silence in every bin, and the given energy\<close>
  "onset_features energy =
     \<lparr>getFftBins = (\<lambda>i. 0), getEnergy = energy, getIsBeat = False, getIsOnset = True,
      getTempo = 100\<rparr>"

definition beat_features :: "int \<Rightarrow> features" where
  \<comment> \<open>a tick with a beat, silence in every bin, and the given tempo\<close>
  "beat_features tempo =
     \<lparr>getFftBins = (\<lambda>i. 0), getEnergy = 0, getIsBeat = True, getIsOnset = False,
      getTempo = tempo\<rparr>"

text \<open>
  The timing of the sources of a run. A tick touches at most one source, with the speed
  1.5 of a beat or the speed 0.8 of an onset, and sets its age to 0; every aging adds
  the speed to the age. So the age of a source is a multiple of its speed, and no two
  sources of a pool have the same speed and the same age. Between two ticks every source
  has aged at least once, and a pool of more than two sources holds no source older than
  15.0.
\<close>

definition timing :: "source_t \<Rightarrow> real \<times> real" where
  "timing s = (src_speed s, src_diffusion_age s)"

definition pool_timed :: "source_t list \<Rightarrow> bool" where
  "pool_timed srcs =
     ((\<forall>s\<in>set srcs. (src_speed s = 15 / 10 \<or> src_speed s = 8 / 10) \<and>
                      (\<exists>k::nat. src_diffusion_age s = src_speed s * real k)) \<and>
      distinct (map timing srcs))"

definition pool_between_ticks :: "source_t list \<Rightarrow> bool" where
  "pool_between_ticks srcs =
     (pool_timed srcs \<and> (\<forall>s\<in>set srcs. 0 < src_diffusion_age s) \<and>
      (length srcs \<le> 2 \<or> (\<forall>s\<in>set srcs. src_diffusion_age s \<le> 15)))"

text \<open>
  Modelled from the spec: the colour conversions \<^verbatim>\<open>RGBtoHSV\<close> and \<^verbatim>\<open>HSVtoRGB\<close> of
  \<^verbatim>\<open>ColorUtils.h\<close>, whose code is not in the plugin's source file. The spec says of them "convert the blended
  colour to hue-saturation-value" and "convert back to RGB", with hue in degrees and a
  value whose "natural range is smaller than 360", and that "no term can drive channels
  below 0 given positive factors and non-negative inputs". The contract below is what
  these words assume: a colour with non-negative channels has a non-negative hue, a
  saturation between 0 and 100 and a non-negative value; and a hue in \<open>[0, 360)\<close>, a
  saturation in \<open>[0, 100]\<close> and a non-negative value convert to non-negative channels.
\<close>

definition rgb_nonneg :: "RGB_t \<Rightarrow> bool" where
  "rgb_nonneg c = (0 \<le> rgb_R c \<and> 0 \<le> rgb_G c \<and> 0 \<le> rgb_B c)"

definition hsv_in_range :: "HSV_t \<Rightarrow> bool" where
  "hsv_in_range h =
     (0 \<le> hsv_H h \<and> hsv_H h < 360 \<and> 0 \<le> hsv_S h \<and> hsv_S h \<le> 100 \<and> 0 \<le> hsv_V h)"

definition ColorUtils_contract :: "ColorUtils \<Rightarrow> bool" where
  "ColorUtils_contract cu =
     ((\<forall>c. rgb_nonneg c \<longrightarrow>
         0 \<le> hsv_H (RGBtoHSV cu c) \<and> 0 \<le> hsv_S (RGBtoHSV cu c) \<and>
         hsv_S (RGBtoHSV cu c) \<le> 100 \<and> 0 \<le> hsv_V (RGBtoHSV cu c)) \<and>
      (\<forall>h. hsv_in_range h \<longrightarrow> rgb_nonneg (HSVtoRGB cu h)))"

text \<open>An instance of the contract: conversions that keep the brightness only.\<close>

definition grey_ColorUtils :: ColorUtils where
  "grey_ColorUtils =
     \<lparr>RGBtoHSV = (\<lambda>c. \<lparr>hsv_H = 0, hsv_S = 0,
                        hsv_V = (max (rgb_R c) (max (rgb_G c) (rgb_B c)) * 100) div 255\<rparr>),
      HSVtoRGB = (\<lambda>h. \<lparr>rgb_R = (hsv_V h * 255) div 100, rgb_G = (hsv_V h * 255) div 100,
                        rgb_B = (hsv_V h * 255) div 100\<rparr>)\<rparr>"

text \<open>What every source of a pool built by the ticks satisfies.\<close>

definition source_ok :: "source_t \<Rightarrow> bool" where
  "source_ok s =
     (0 \<le> src_diffusion_age s \<and> 0 \<le> src_speed s \<and>
      0 \<le> src_R s \<and> 0 \<le> src_G s \<and> 0 \<le> src_B s)"

definition palette_nonneg :: "plugin_env \<Rightarrow> bool" where
  "palette_nonneg env = list_all rgb_nonneg (paletteColours env)"

text \<open>The working colour of \<^verbatim>\<open>renderPanel\<close> has no negative channel.\<close>

definition colour_nonneg :: "real \<times> real \<times> real \<Rightarrow> bool" where
  "colour_nonneg c = (0 \<le> fst c \<and> 0 \<le> fst (snd c) \<and> 0 \<le> snd (snd c))"

text \<open>The channels of a rendered colour, and of a frame, lie within [0, 255].\<close>

definition channels_in_range :: "int \<times> int \<times> int \<Rightarrow> bool" where
  "channels_in_range c =
     (0 \<le> fst c \<and> fst c \<le> 255 \<and> 0 \<le> fst (snd c) \<and> fst (snd c) \<le> 255 \<and>
      0 \<le> snd (snd c) \<and> snd (snd c) \<le> 255)"

definition frame_in_range :: "Frame_t \<Rightarrow> bool" where
  "frame_in_range f =
     (0 \<le> fr_r f \<and> fr_r f \<le> 255 \<and> 0 \<le> fr_g f \<and> fr_g f \<le> 255 \<and>
      0 \<le> fr_b f \<and> fr_b f \<le> 255)"

section \<open>Properties\<close>

subsection \<open>The conversion to int\<close>

lemma c_int_of_int [simp]: "c_int (real_of_int k) = k"
  by (simp add: c_int_def)

lemma c_int_nonneg: "0 \<le> f \<Longrightarrow> 0 \<le> c_int f"
  by (simp add: c_int_def)

lemma int_cast_defined_of_int:
  "\<bar>k\<bar> \<le> 16777216 \<Longrightarrow> int_cast_defined (real_of_int k)"
  by (auto simp: int_cast_defined_def abs_if split: if_splits)

subsection \<open>Rounding\<close>

lemma pow2_powr: "pow2 e = 2 powr real_of_int e"
  by (simp add: pow2_def powr_int)

lemma pow2_pos [simp]: "0 < pow2 e"
  by (simp add: pow2_powr)

lemma pow2_nonneg [simp]: "0 \<le> pow2 e"
  using pow2_pos [of e] by linarith

lemma pow2_not_le_0 [simp]: "\<not> pow2 e \<le> 0"
  using pow2_pos [of e] by linarith

lemma pow2_neq_0 [simp]: "pow2 e \<noteq> 0"
  using pow2_pos [of e] by linarith

lemma pow2_add: "pow2 (a + b) = pow2 a * pow2 b"
  by (simp add: pow2_powr powr_add)

lemma pow2_mono: "a \<le> b \<Longrightarrow> pow2 a \<le> pow2 b"
  by (simp add: pow2_powr)

lemma pow2_nat: "0 \<le> e \<Longrightarrow> pow2 e = real_of_int (2 ^ nat e)"
  by (simp add: pow2_def)

lemma binade_eq:
  assumes "pow2 e \<le> \<bar>x\<bar>" and "\<bar>x\<bar> < pow2 (e + 1)"
  shows "binade x = e"
proof -
  have pos: "0 < \<bar>x\<bar>" using assms(1) pow2_pos [of e] by linarith
  have "2 powr real_of_int e \<le> \<bar>x\<bar> \<and> \<bar>x\<bar> < 2 powr (real_of_int e + 1)"
    using assms by (simp add: pow2_powr)
  then show ?thesis
    unfolding binade_def using floor_log_eq_powr_iff [of "\<bar>x\<bar>" 2 e] pos by simp
qed

lemma binade_bounds:
  assumes "x \<noteq> 0"
  shows "pow2 (binade x) \<le> \<bar>x\<bar> \<and> \<bar>x\<bar> < pow2 (binade x + 1)"
proof -
  have pos: "0 < \<bar>x\<bar>" using assms by simp
  from floor_log_eq_powr_iff [of "\<bar>x\<bar>" 2 "binade x"] pos
  show ?thesis by (simp add: binade_def pow2_powr)
qed

lemma rne_of_int [simp]: "rne (real_of_int k) = k"
  by (simp add: rne_def)

lemma rne_nonneg: "0 \<le> y \<Longrightarrow> 0 \<le> rne y"
  by (auto simp: rne_def)

lemma rne_le_int: "y \<le> real_of_int n \<Longrightarrow> rne y \<le> n"
proof -
  assume le: "y \<le> real_of_int n"
  show ?thesis
  proof (cases "y = real_of_int n")
    case True then show ?thesis by simp
  next
    case False
    with le have "y < real_of_int n" by simp
    then have "\<lfloor>y\<rfloor> < n" by (simp add: floor_less_iff)
    then have "\<lfloor>y\<rfloor> + 1 \<le> n" by simp
    then show ?thesis by (auto simp: rne_def)
  qed
qed

lemma rne_error: "\<bar>real_of_int (rne y) - y\<bar> \<le> 1 / 2"
  unfolding rne_def by (auto simp: abs_if; linarith)

lemma round_to_eval:
  assumes "pow2 e \<le> \<bar>x\<bar>" and "\<bar>x\<bar> < pow2 (e + 1)"
  shows "round_to p emin x = real_of_int (rne (x / pow2 (max e emin - p + 1))) * pow2 (max e emin - p + 1)"
proof -
  have "x \<noteq> 0" using assms(1) pow2_pos [of e] by auto
  then show ?thesis by (simp add: round_to_def binade_eq [OF assms] Let_def)
qed

lemma round_to_0 [simp]: "round_to p emin 0 = 0"
  by (simp add: round_to_def)

lemma round_to_nonneg: "0 \<le> x \<Longrightarrow> 0 \<le> round_to p emin x"
  by (auto simp: round_to_def Let_def intro!: mult_nonneg_nonneg rne_nonneg divide_nonneg_pos)


lemma round_to_error:
  assumes "x \<noteq> 0"
  shows "\<bar>round_to p emin x - x\<bar> \<le> pow2 (max (binade x) emin - p + 1) / 2"
proof -
  define q where "q = pow2 (max (binade x) emin - p + 1)"
  have q: "0 < q" by (simp add: q_def)
  have "round_to p emin x - x = (real_of_int (rne (x / q)) - x / q) * q"
    using assms q by (simp add: round_to_def Let_def q_def field_simps)
  then have "\<bar>round_to p emin x - x\<bar> = \<bar>real_of_int (rne (x / q)) - x / q\<bar> * q"
    using q by (simp add: abs_mult)
  also have "\<dots> \<le> (1 / 2) * q"
    using rne_error [of "x / q"] q by (intro mult_right_mono) simp_all
  finally show ?thesis by (simp add: q_def)
qed

lemma round_to_bound:
  assumes p: "1 \<le> p" and emin: "emin - p + 1 \<le> 0"
  shows "\<bar>round_to p emin x\<bar> \<le> 2 * \<bar>x\<bar> + 1"
proof (cases "x = 0")
  case True
  then show ?thesis by simp
next
  case False
  define q where "q = pow2 (max (binade x) emin - p + 1)"
  have "q \<le> \<bar>x\<bar> + 1"
  proof (cases "emin \<le> binade x")
    case True
    then have "q = pow2 (binade x - p + 1)" by (simp add: q_def max_def)
    also have "\<dots> \<le> pow2 (binade x)" using p by (intro pow2_mono) simp
    also have "\<dots> \<le> \<bar>x\<bar>" using binade_bounds [OF False] by simp
    finally show ?thesis by simp
  next
    case False
    then have "q = pow2 (emin - p + 1)" by (simp add: q_def max_def)
    also have "\<dots> \<le> pow2 0" using emin by (intro pow2_mono)
    finally show ?thesis by (simp add: pow2_def)
  qed
  moreover have "\<bar>round_to p emin x - x\<bar> \<le> q / 2"
    using round_to_error [OF False] by (simp add: q_def)
  ultimately show ?thesis by linarith
qed

lemma f32_bound: "\<bar>f32 x\<bar> \<le> 2 * \<bar>x\<bar> + 1"
  unfolding f32_def by (rule round_to_bound) simp_all

lemma f64_bound: "\<bar>f64 x\<bar> \<le> 2 * \<bar>x\<bar> + 1"
  unfolding f64_def by (rule round_to_bound) simp_all

lemma f32_nonneg: "0 \<le> x \<Longrightarrow> 0 \<le> f32 x"
  by (simp add: f32_def round_to_nonneg)

lemma f64_nonneg: "0 \<le> x \<Longrightarrow> 0 \<le> f64 x"
  by (simp add: f64_def round_to_nonneg)

text \<open>A value that is a whole multiple of the quantum of its binade is not changed.\<close>

lemma round_to_exact:
  assumes "x / pow2 (max (binade x) emin - p + 1) = real_of_int m"
  shows "round_to p emin x = x"
proof (cases "x = 0")
  case True
  then show ?thesis by simp
next
  case False
  define q where "q = pow2 (max (binade x) emin - p + 1)"
  have q: "q \<noteq> 0" by (simp add: q_def)
  have xq: "x / q = real_of_int m" using assms by (simp add: q_def)
  then have "real_of_int (rne (x / q)) * q = (x / q) * q" by simp
  also have "\<dots> = x" using q by simp
  finally show ?thesis using False by (simp add: round_to_def Let_def q_def)
qed

lemma pow2_inverse: "1 / pow2 e = pow2 (- e)"
  by (simp add: pow2_powr powr_minus field_simps)

lemma binade_of_int_nonneg: "k \<noteq> 0 \<Longrightarrow> 0 \<le> binade (real_of_int k)"
proof -
  assume "k \<noteq> 0"
  then have "1 \<le> \<bar>real_of_int k\<bar>" by (simp flip: of_int_abs)
  then have "0 \<le> log 2 \<bar>real_of_int k\<bar>" by simp
  then show ?thesis by (simp add: binade_def)
qed

lemma binade_le:
  assumes "x \<noteq> 0" and "\<bar>x\<bar> < pow2 (e + 1)"
  shows "binade x \<le> e"
proof (rule ccontr)
  assume "\<not> binade x \<le> e"
  then have "e + 1 \<le> binade x" by simp
  then have "pow2 (e + 1) \<le> pow2 (binade x)" by (rule pow2_mono)
  with binade_bounds [OF assms(1)] assms(2) show False by linarith
qed

lemma round_to_of_int:
  assumes "\<bar>k\<bar> \<le> 2 ^ nat p" and "0 < p" and "emin \<le> 0"
  shows "round_to p emin (real_of_int k) = real_of_int k"
proof (cases "k = 0")
  case True
  then show ?thesis by simp
next
  case False
  define b where "b = binade (real_of_int k)"
  have b0: "0 \<le> b" using binade_of_int_nonneg [OF False] by (simp add: b_def)
  have nz: "real_of_int k \<noteq> 0" using False by simp
  have "\<bar>real_of_int k\<bar> \<le> pow2 p"
  proof -
    have "real_of_int \<bar>k\<bar> \<le> real_of_int (2 ^ nat p)" using assms(1) by (simp only: of_int_le_iff)
    then show ?thesis using assms(2) by (simp add: pow2_def)
  qed
  also have "\<dots> < pow2 (p + 1)" by (simp add: pow2_powr)
  finally have "b \<le> p" unfolding b_def using binade_le [OF nz] by simp
  have mx: "max b emin = b" using b0 assms(3) by simp
  show ?thesis
  proof (cases "b \<le> p - 1")
    case True
    then have e: "0 \<le> p - 1 - b" by simp
    have "real_of_int k / pow2 (b - p + 1) = real_of_int k * pow2 (p - 1 - b)"
      using pow2_inverse [of "b - p + 1"] by (simp add: field_simps)
    also have "\<dots> = real_of_int (k * 2 ^ nat (p - 1 - b))"
      using pow2_nat [OF e] by simp
    finally have "real_of_int k / pow2 (max (binade (real_of_int k)) emin - p + 1) =
        real_of_int (k * 2 ^ nat (p - 1 - b))"
      using mx by (simp add: b_def)
    then show ?thesis by (rule round_to_exact)
  next
    case False
    with \<open>b \<le> p\<close> have bp: "b = p" by simp
    have "pow2 p \<le> \<bar>real_of_int k\<bar>"
      using binade_bounds [OF nz] bp by (simp add: b_def)
    with \<open>\<bar>real_of_int k\<bar> \<le> pow2 p\<close> have eq: "\<bar>real_of_int k\<bar> = pow2 p" by simp
    have p1: "0 \<le> p - 1" using assms(2) by simp
    have "pow2 p = 2 * pow2 (p - 1)"
      using pow2_add [of 1 "p - 1"] by (simp add: pow2_def)
    then have "\<bar>real_of_int k\<bar> / 2 = real_of_int (2 ^ nat (p - 1))"
      using eq pow2_nat [OF p1] by simp
    then have half: "real_of_int k / 2 = real_of_int (2 ^ nat (p - 1)) \<or>
               real_of_int k / 2 = real_of_int (- (2 ^ nat (p - 1)))"
      by (cases "0 \<le> k") simp_all
    have q2: "pow2 (max (binade (real_of_int k)) emin - p + 1) = 2"
      using bp mx by (simp add: pow2_def b_def)
    from half have "\<exists>m. real_of_int k / 2 = real_of_int m" by blast
    then have "\<exists>m. real_of_int k / pow2 (max (binade (real_of_int k)) emin - p + 1) =
        real_of_int m"
      by (simp only: q2)
    then show ?thesis using round_to_exact by blast
  qed
qed

lemma f32_of_int: "\<bar>k\<bar> \<le> 16777216 \<Longrightarrow> f32 (real_of_int k) = real_of_int k"
  unfolding f32_def by (rule round_to_of_int) simp_all

text \<open>Rounding does not pass a power of two that bounds the value.\<close>

lemma round_to_le_1:
  assumes "0 \<le> x" and "x \<le> 1" and "0 < p" and "emin \<le> 0"
  shows "round_to p emin x \<le> 1"
proof (cases "x = 0")
  case True
  then show ?thesis by simp
next
  case False
  define e where "e = max (binade x) emin - p + 1"
  have "\<bar>x\<bar> < pow2 (0 + 1)" using assms(1,2) by (simp add: pow2_def)
  from binade_le [OF False this] have "binade x \<le> 0" .
  then have e0: "0 \<le> - e" using assms(3,4) by (simp add: e_def)
  have inv: "1 / pow2 e = real_of_int (2 ^ nat (- e))"
    using pow2_inverse [of e] pow2_nat [OF e0] by simp
  have "x / pow2 e \<le> 1 / pow2 e" using assms(2) by (simp add: divide_right_mono)
  then have "rne (x / pow2 e) \<le> 2 ^ nat (- e)"
    using inv by (intro rne_le_int) simp
  then have "real_of_int (rne (x / pow2 e)) \<le> real_of_int (2 ^ nat (- e))"
    by (simp only: of_int_le_iff)
  then have "real_of_int (rne (x / pow2 e)) \<le> 1 / pow2 e"
    using inv by simp
  then have "real_of_int (rne (x / pow2 e)) * pow2 e \<le> 1"
    by (simp add: field_simps)
  then show ?thesis using False by (simp add: round_to_def Let_def e_def)
qed

lemma f32_le_1: "0 \<le> x \<Longrightarrow> x \<le> 1 \<Longrightarrow> f32 x \<le> 1"
  unfolding f32_def by (rule round_to_le_1) simp_all

lemma f64_le_1: "0 \<le> x \<Longrightarrow> x \<le> 1 \<Longrightarrow> f64 x \<le> 1"
  unfolding f64_def by (rule round_to_le_1) simp_all

lemma f32_0 [simp]: "f32 0 = 0"
  by (simp add: f32_def)

lemma f64_0 [simp]: "f64 0 = 0"
  by (simp add: f64_def)

lemma f32_numeral: "(numeral w :: int) \<le> 16777216 \<Longrightarrow> f32 (numeral w) = numeral w"
  using f32_of_int [of "numeral w"] by simp

lemma f32_1 [simp]: "f32 1 = 1"
  using f32_of_int [of 1] by simp

lemma rne_ge_int: "real_of_int n \<le> y \<Longrightarrow> n \<le> rne y"
proof -
  assume "real_of_int n \<le> y"
  then have "n \<le> \<lfloor>y\<rfloor>" by (simp add: le_floor_iff)
  then show ?thesis by (auto simp: rne_def)
qed

lemma rne_abs_le:
  assumes "\<bar>y\<bar> \<le> real_of_int n"
  shows "\<bar>rne y\<bar> \<le> n"
proof -
  have "y \<le> real_of_int n" and "real_of_int (- n) \<le> y" using assms by (simp_all add: abs_le_iff)
  from rne_le_int [OF this(1)] rne_ge_int [OF this(2)] show ?thesis by simp
qed

lemma pow2_Suc: "pow2 (e + 1) = 2 * pow2 e"
proof -
  have "pow2 1 = 2" by (simp add: pow2_def)
  then show ?thesis by (simp add: pow2_add [of e 1])
qed

lemma pow2_split: "a = b + c \<Longrightarrow> pow2 a = pow2 b * pow2 c"
  by (simp add: pow2_add)

text \<open>A rounded value is not rounded again.\<close>

lemma round_to_idem:
  assumes p: "1 \<le> p"
  shows "round_to p emin (round_to p emin x) = round_to p emin x"
proof (cases "round_to p emin x = 0")
  case True
  then show ?thesis by simp
next
  case nz: False
  then have x0: "x \<noteq> 0" by auto
  define E where "E = max (binade x) emin"
  define q where "q = pow2 (E - p + 1)"
  define m where "m = rne (x / q)"
  define y where "y = round_to p emin x"
  have y: "y = real_of_int m * q"
    using x0 by (simp add: y_def round_to_def Let_def E_def q_def m_def)
  have y0: "y \<noteq> 0" using nz by (simp add: y_def)
  have qpos: "0 < q" by (simp add: q_def)
  have split: "pow2 (E + 1) = pow2 p * q"
    unfolding q_def by (rule pow2_split) simp
  have pint: "pow2 p = real_of_int (2 ^ nat p)"
    using p by (simp add: pow2_nat)
  have "\<bar>x\<bar> < pow2 (binade x + 1)" using binade_bounds [OF x0] by simp
  also have "\<dots> \<le> pow2 (E + 1)" by (intro pow2_mono) (simp add: E_def)
  finally have "\<bar>x\<bar> < pow2 p * q" by (simp add: split)
  then have "\<bar>x\<bar> / q < pow2 p" using qpos by (simp add: field_simps)
  then have "\<bar>x / q\<bar> \<le> real_of_int (2 ^ nat p)" using qpos pint by simp
  then have "\<bar>m\<bar> \<le> 2 ^ nat p" unfolding m_def by (rule rne_abs_le)
  then have "real_of_int \<bar>m\<bar> \<le> real_of_int (2 ^ nat p)" by (simp only: of_int_le_iff)
  then have "\<bar>real_of_int m\<bar> * q \<le> pow2 p * q"
    using qpos pint by (intro mult_right_mono) simp_all
  then have ybound: "\<bar>y\<bar> \<le> pow2 (E + 1)"
    using qpos by (simp add: y abs_mult split)
  have "pow2 (E + 1) < pow2 (E + 1 + 1)"
    using pow2_pos [of "E + 1"] pow2_Suc [of "E + 1"] by linarith
  with ybound have "\<bar>y\<bar> < pow2 (E + 1 + 1)" by simp
  from binade_le [OF y0 this] have bl: "binade y \<le> E + 1" .
  have emin_le: "emin \<le> E" by (simp add: E_def)
  define E' where "E' = max (binade y) emin"
  have "E' \<le> E \<or> binade y = E + 1"
    using bl emin_le unfolding E'_def by linarith
  then consider (same) "E' \<le> E" | (up) "binade y = E + 1"
    by blast
  then have "\<exists>k. y / pow2 (E' - p + 1) = real_of_int k"
  proof cases
    case same
    have "pow2 (E - p + 1) = pow2 (E - E') * pow2 (E' - p + 1)"
      by (rule pow2_split) simp
    moreover have "pow2 (E - E') = real_of_int (2 ^ nat (E - E'))"
      using same by (simp add: pow2_nat)
    ultimately have "y / pow2 (E' - p + 1) = real_of_int (m * 2 ^ nat (E - E'))"
      by (simp add: y q_def)
    then show ?thesis ..
  next
    case up
    then have E': "E' = E + 1" using emin_le by (simp add: E'_def)
    have "pow2 (E + 1) \<le> \<bar>y\<bar>" using binade_bounds [OF y0] up by simp
    with ybound have "\<bar>y\<bar> = pow2 (E + 1)" by simp
    then have "y = pow2 (E + 1) \<or> y = - pow2 (E + 1)" by (auto simp: abs_if split: if_splits)
    moreover have "pow2 (E + 1) = pow2 (p - 1) * pow2 (E' - p + 1)"
      unfolding E' by (rule pow2_split) simp
    moreover have "pow2 (p - 1) = real_of_int (2 ^ nat (p - 1))"
      using p by (simp add: pow2_nat)
    ultimately have "y / pow2 (E' - p + 1) = real_of_int (2 ^ nat (p - 1)) \<or>
        y / pow2 (E' - p + 1) = real_of_int (- (2 ^ nat (p - 1)))"
      by auto
    then show ?thesis by blast
  qed
  then obtain k where "y / pow2 (max (binade y) emin - p + 1) = real_of_int k"
    unfolding E'_def by blast
  from round_to_exact [OF this] show ?thesis by (simp add: y_def)
qed

lemma f32_idem [simp]: "f32 (f32 x) = f32 x"
  by (simp add: f32_def round_to_idem)

text \<open>A \<^verbatim>\<open>float\<close> of magnitude \<open>2 ^ 24\<close> or more is an integer.\<close>

lemma float_large_is_int:
  assumes fl: "f32 x = x" and big: "16777216 \<le> x"
  shows "x = real_of_int \<lfloor>x\<rfloor>"
proof -
  have x0: "x \<noteq> 0" using big by simp
  have "\<not> binade x \<le> 23"
  proof
    assume "binade x \<le> 23"
    then have "pow2 (binade x + 1) \<le> pow2 24" by (intro pow2_mono) simp
    with binade_bounds [OF x0] big show False by (simp add: pow2_def)
  qed
  then have b: "0 \<le> binade x - 23" by simp
  have e: "max (binade x) (- 126) - 24 + 1 = binade x - 23" using b by simp
  have "x = real_of_int (rne (x / pow2 (binade x - 23))) * pow2 (binade x - 23)"
    using fl x0 by (simp add: f32_def round_to_def Let_def e)
  also have "\<dots> = real_of_int (rne (x / pow2 (binade x - 23)) * 2 ^ nat (binade x - 23))"
    using pow2_nat [OF b] by simp
  finally have "x = real_of_int (rne (x / pow2 (binade x - 23)) * 2 ^ nat (binade x - 23))" .
  then show ?thesis by (metis floor_of_int)
qed

text \<open>Rounding a value whose binade is known; the instances evaluate concrete inputs.\<close>

lemma f32_at:
  "pow2 e \<le> \<bar>x\<bar> \<Longrightarrow> \<bar>x\<bar> < pow2 (e + 1) \<Longrightarrow> - 126 \<le> e \<Longrightarrow>
   f32 x = real_of_int (rne (x / pow2 (e - 23))) * pow2 (e - 23)"
  using round_to_eval [of e x 24 "- 126"] by (simp add: f32_def max_def)

lemma f64_at:
  "pow2 e \<le> \<bar>x\<bar> \<Longrightarrow> \<bar>x\<bar> < pow2 (e + 1) \<Longrightarrow> - 1022 \<le> e \<Longrightarrow>
   f64 x = real_of_int (rne (x / pow2 (e - 52))) * pow2 (e - 52)"
  using round_to_eval [of e x 53 "- 1022"] by (simp add: f64_def max_def)

lemmas float_eval = f32_at [where e = "- 2"] f32_at [where e = "- 1"] f32_at [where e = 0]
  f32_at [where e = 1] f32_at [where e = 2] f32_at [where e = 3] f32_at [where e = 4]
  f32_at [where e = 5]
  f64_at [where e = "- 2"] f64_at [where e = "- 1"] f64_at [where e = 0]
  f64_at [where e = 1] f64_at [where e = 2] f64_at [where e = 3] f64_at [where e = 4]
  f64_at [where e = 5] pow2_def rne_def

lemmas float_eval_small = f64_at [where e = "- 23"] f64_at [where e = "- 20"]
  f64_at [where e = "- 19"]

subsection \<open>The palette interpolator\<close>

lemma getRGB_empty: "paletteColours env = [] \<Longrightarrow> getRGB env colour = Inr (128, 128, 128)"
  by (simp add: getRGB_def nColours_def)

lemma getRGB_single:
  "length (paletteColours env) = 1 \<Longrightarrow>
   getRGB env colour = Inr (rgb_triple (paletteColours env ! 0))"
  by (simp add: getRGB_def nColours_def rgb_triple_def)

lemma getRGB_cast_fault:
  "2 \<le> length (paletteColours env) \<Longrightarrow> \<not> int_cast_defined colour \<Longrightarrow>
   getRGB env colour = Inl FloatToIntOutOfRange"
  by (auto simp: getRGB_def nColours_def)

lemma palette_exact_nth:
  "palette_exact env \<Longrightarrow> i < length (paletteColours env) \<Longrightarrow>
   channel_exact (paletteColours env ! i)"
  by (simp add: palette_exact_def list_all_length)

text \<open>A stop that passes through \<^verbatim>\<open>float\<close> unchanged.\<close>

lemma stop_through_float:
  assumes "channel_exact c"
  shows "(if int_cast_defined (f32 (real_of_int (rgb_R c))) \<and>
             int_cast_defined (f32 (real_of_int (rgb_G c))) \<and>
             int_cast_defined (f32 (real_of_int (rgb_B c)))
          then Inr (c_int (f32 (real_of_int (rgb_R c))), c_int (f32 (real_of_int (rgb_G c))),
                    c_int (f32 (real_of_int (rgb_B c))))
          else Inl FloatToIntOutOfRange) = (Inr (rgb_triple c) :: fault + int \<times> int \<times> int)"
  using assms
  by (simp add: channel_exact_def f32_of_int int_cast_defined_of_int rgb_triple_def)

lemma getRGB_low:
  assumes "2 \<le> length (paletteColours env)" and "palette_exact env"
    and "int_cast_defined colour" and "colour \<le> 0"
  shows "getRGB env colour = Inr (rgb_triple (paletteColours env ! 0))"
proof -
  have "0 < length (paletteColours env)" using assms(1) by linarith
  from palette_exact_nth [OF assms(2) this] have "channel_exact (paletteColours env ! 0)" .
  from stop_through_float [OF this] assms(1,3,4) show ?thesis
    by (auto simp: getRGB_def nColours_def Let_def)
qed

lemma getRGB_high:
  assumes "2 \<le> length (paletteColours env)" and "palette_exact env"
    and "int_cast_defined colour"
    and "int (length (paletteColours env)) - 1 \<le> \<lfloor>colour\<rfloor>"
  shows "getRGB env colour =
         Inr (rgb_triple (paletteColours env ! (length (paletteColours env) - 1)))"
proof -
  have pos: "0 < colour" using assms(1,4) by linarith
  then have idx: "c_int colour = \<lfloor>colour\<rfloor>" by (simp add: c_int_def)
  have n: "nat (int (length (paletteColours env)) - 1) = length (paletteColours env) - 1"
    by simp
  have "length (paletteColours env) - 1 < length (paletteColours env)"
    using assms(1) by linarith
  from palette_exact_nth [OF assms(2) this]
  have "channel_exact (paletteColours env ! (length (paletteColours env) - 1))" .
  from stop_through_float [OF this] assms(1,3,4) pos idx n show ?thesis
    by (auto simp: getRGB_def nColours_def Let_def)
qed

text \<open>The bounds that keep the last conversion of the interpolation defined.\<close>

lemma f64_bound_le: "\<bar>x\<bar> \<le> b \<Longrightarrow> \<bar>f64 x\<bar> \<le> 2 * b + 1"
  using f64_bound [of x] by linarith

lemma f32_bound_le: "\<bar>x\<bar> \<le> b \<Longrightarrow> \<bar>f32 x\<bar> \<le> 2 * b + 1"
  using f32_bound [of x] by linarith

lemma blend_channel_bound:
  assumes "0 \<le> fraction" and "fraction \<le> 1" and "\<bar>c1\<bar> \<le> 16777216" and "\<bar>c2\<bar> \<le> 16777216"
  shows "\<bar>blend_channel fraction c1 c2\<bar> \<le> 500000000"
proof -
  have r1: "\<bar>real_of_int c1\<bar> \<le> 16777216" and r2: "\<bar>real_of_int c2\<bar> \<le> 16777216"
    using assms(3,4) by (simp_all flip: of_int_abs)
  have t1: "0 \<le> f64 (1 - fraction)" "f64 (1 - fraction) \<le> 1"
    using assms(1,2) by (simp_all add: f64_nonneg f64_le_1)
  have "\<bar>f64 (1 - fraction) * real_of_int c1\<bar> \<le> 1 * 16777216"
    unfolding abs_mult using t1 r1 by (intro mult_mono) simp_all
  then have t2: "\<bar>f64 (f64 (1 - fraction) * real_of_int c1)\<bar> \<le> 33554433"
    using f64_bound [of "f64 (1 - fraction) * real_of_int c1"] by linarith
  have "\<bar>fraction * real_of_int c2\<bar> \<le> 1 * 16777216"
    unfolding abs_mult using assms(1,2) r2 by (intro mult_mono) simp_all
  then have t3: "\<bar>f32 (fraction * real_of_int c2)\<bar> \<le> 33554433"
    using f32_bound [of "fraction * real_of_int c2"] by linarith
  have "\<bar>f64 (f64 (1 - fraction) * real_of_int c1) + f32 (fraction * real_of_int c2)\<bar>
      \<le> 67108866"
    using abs_triangle_ineq [of "f64 (f64 (1 - fraction) * real_of_int c1)"
        "f32 (fraction * real_of_int c2)"] t2 t3 by linarith
  from f64_bound_le [OF this] have t4:
    "\<bar>f64 (f64 (f64 (1 - fraction) * real_of_int c1) + f32 (fraction * real_of_int c2))\<bar>
      \<le> 134217733"
    by simp
  from f32_bound_le [OF t4] show ?thesis
    unfolding blend_channel_def by simp
qed

lemma blend_channel_cast:
  assumes "0 \<le> fraction" and "fraction \<le> 1" and "\<bar>c1\<bar> \<le> 16777216" and "\<bar>c2\<bar> \<le> 16777216"
  shows "int_cast_defined (blend_channel fraction c1 c2)"
  using blend_channel_bound [OF assms] by (simp add: int_cast_defined_def abs_le_iff)

lemma blend_channel_nonneg:
  assumes "0 \<le> fraction" and "fraction \<le> 1" and "0 \<le> c1" and "0 \<le> c2"
  shows "0 \<le> blend_channel fraction c1 c2"
  unfolding blend_channel_def using assms
  by (intro f32_nonneg f64_nonneg add_nonneg_nonneg mult_nonneg_nonneg) simp_all

lemma fraction_unit:
  assumes "0 < colour"
  shows "0 \<le> f32 (colour - real_of_int \<lfloor>colour\<rfloor>) \<and> f32 (colour - real_of_int \<lfloor>colour\<rfloor>) \<le> 1"
proof -
  have "0 \<le> colour - real_of_int \<lfloor>colour\<rfloor>" "colour - real_of_int \<lfloor>colour\<rfloor> \<le> 1"
    by linarith+
  then show ?thesis by (simp add: f32_nonneg f32_le_1)
qed

text \<open>The same for an index that is a \<^verbatim>\<open>float\<close>, on a palette of any length.\<close>

lemma float_fraction_unit:
  assumes fl: "f32 colour = colour" and pos: "0 < colour"
  shows "0 \<le> f32 (colour - f32 (real_of_int \<lfloor>colour\<rfloor>)) \<and>
         f32 (colour - f32 (real_of_int \<lfloor>colour\<rfloor>)) \<le> 1"
proof (cases "colour < 16777216")
  case True
  then have "\<bar>\<lfloor>colour\<rfloor>\<bar> \<le> 16777216" using pos by (simp add: abs_le_iff floor_le_iff)
  then have "f32 (real_of_int \<lfloor>colour\<rfloor>) = real_of_int \<lfloor>colour\<rfloor>" by (rule f32_of_int)
  with fraction_unit [OF pos] show ?thesis by simp
next
  case False
  then have "colour = real_of_int \<lfloor>colour\<rfloor>" using float_large_is_int [OF fl] by simp
  then have "f32 (real_of_int \<lfloor>colour\<rfloor>) = colour" using fl by simp
  then show ?thesis by simp
qed

lemma getRGB_mid:
  assumes "2 \<le> length (paletteColours env)" and "palette_exact env" and "0 < colour"
    and "\<lfloor>colour\<rfloor> < int (length (paletteColours env)) - 1"
  shows "getRGB env colour =
     Inr (let idx = nat \<lfloor>colour\<rfloor>; fraction = f32 (colour - real_of_int \<lfloor>colour\<rfloor>);
              c1 = paletteColours env ! idx; c2 = paletteColours env ! (idx + 1)
          in (c_int (blend_channel fraction (rgb_R c1) (rgb_R c2)),
              c_int (blend_channel fraction (rgb_G c1) (rgb_G c2)),
              c_int (blend_channel fraction (rgb_B c1) (rgb_B c2))))"
proof -
  have len: "length (paletteColours env) \<le> 16777216"
    using assms(2) by (simp add: palette_exact_def)
  have idx: "c_int colour = \<lfloor>colour\<rfloor>" using assms(3) by (simp add: c_int_def)
  have nn: "0 \<le> \<lfloor>colour\<rfloor>" using assms(3) by simp
  have small: "\<bar>\<lfloor>colour\<rfloor>\<bar> \<le> 16777216" using nn assms(4) len by linarith
  have cast: "int_cast_defined colour"
  proof -
    have "colour < real_of_int \<lfloor>colour\<rfloor> + 1" by linarith
    also have "\<dots> \<le> 16777217" using small by linarith
    finally show ?thesis using assms(3) by (simp add: int_cast_defined_def)
  qed
  have fidx: "f32 (real_of_int \<lfloor>colour\<rfloor>) = real_of_int \<lfloor>colour\<rfloor>"
    using small by (rule f32_of_int)
  have i1: "nat \<lfloor>colour\<rfloor> < length (paletteColours env)"
    and i2: "Suc (nat \<lfloor>colour\<rfloor>) < length (paletteColours env)"
    using assms(4) nn by linarith+
  have suc: "nat (\<lfloor>colour\<rfloor> + 1) = Suc (nat \<lfloor>colour\<rfloor>)" using nn by linarith
  note c1 = palette_exact_nth [OF assms(2) i1, unfolded channel_exact_def]
  note c2 = palette_exact_nth [OF assms(2) i2, unfolded channel_exact_def]
  note fr = fraction_unit [OF assms(3)]
  have f1: "f32 (real_of_int (rgb_R (paletteColours env ! nat \<lfloor>colour\<rfloor>))) =
            real_of_int (rgb_R (paletteColours env ! nat \<lfloor>colour\<rfloor>))"
      "f32 (real_of_int (rgb_G (paletteColours env ! nat \<lfloor>colour\<rfloor>))) =
            real_of_int (rgb_G (paletteColours env ! nat \<lfloor>colour\<rfloor>))"
      "f32 (real_of_int (rgb_B (paletteColours env ! nat \<lfloor>colour\<rfloor>))) =
            real_of_int (rgb_B (paletteColours env ! nat \<lfloor>colour\<rfloor>))"
    using c1 by (simp_all add: f32_of_int)
  have f2: "f32 (real_of_int (rgb_R (paletteColours env ! (Suc (nat \<lfloor>colour\<rfloor>))))) =
            real_of_int (rgb_R (paletteColours env ! (Suc (nat \<lfloor>colour\<rfloor>))))"
      "f32 (real_of_int (rgb_G (paletteColours env ! (Suc (nat \<lfloor>colour\<rfloor>))))) =
            real_of_int (rgb_G (paletteColours env ! (Suc (nat \<lfloor>colour\<rfloor>))))"
      "f32 (real_of_int (rgb_B (paletteColours env ! (Suc (nat \<lfloor>colour\<rfloor>))))) =
            real_of_int (rgb_B (paletteColours env ! (Suc (nat \<lfloor>colour\<rfloor>))))"
    using c2 by (simp_all add: f32_of_int)
  have casts:
    "int_cast_defined (blend_channel (f32 (colour - real_of_int \<lfloor>colour\<rfloor>))
        (rgb_R (paletteColours env ! nat \<lfloor>colour\<rfloor>))
        (rgb_R (paletteColours env ! (Suc (nat \<lfloor>colour\<rfloor>)))))"
    "int_cast_defined (blend_channel (f32 (colour - real_of_int \<lfloor>colour\<rfloor>))
        (rgb_G (paletteColours env ! nat \<lfloor>colour\<rfloor>))
        (rgb_G (paletteColours env ! (Suc (nat \<lfloor>colour\<rfloor>)))))"
    "int_cast_defined (blend_channel (f32 (colour - real_of_int \<lfloor>colour\<rfloor>))
        (rgb_B (paletteColours env ! nat \<lfloor>colour\<rfloor>))
        (rgb_B (paletteColours env ! (Suc (nat \<lfloor>colour\<rfloor>)))))"
    using fr c1 c2 by (simp_all add: blend_channel_cast)
  have branch: "\<not> colour \<le> 0" "\<lfloor>colour\<rfloor> < nColours env - 1" "nColours env \<noteq> 0"
    "nColours env \<noteq> 1"
    using assms(1,3,4) by (auto simp: nColours_def)
  show ?thesis
    using casts
    by (simp add: getRGB_def Let_def branch cast idx fidx suc f1 f2 flip: blend_channel_def)
qed

lemma demo_palette_exact: "palette_exact demo_env"
  by (simp add: palette_exact_def channel_exact_def demo_env_def demo_palette_def)

text \<open>
  Claim C5, as stated, fails: the code computes in \<^verbatim>\<open>float\<close> and \<^verbatim>\<open>double\<close>, and converts
  the index with \<^verbatim>\<open>(int)\<close>. On the palette (10,20,30), (20,40,61), (200,100,50) and the
  index \<open>11744051 / 2 ^ 24\<close>, the \<^verbatim>\<open>float\<close> nearest 0.7, the product \<^verbatim>\<open>fraction * R2\<close> is rounded
  up to 14 and the code returns (17, 34, 51), where the truncation of the exact value of
  \<open>(1 - frac) * C[0] + frac * C[1]\<close> is (16, 33, 51). At the index \<open>1 - 2 ^ - 23\<close> the code
  returns (20, 40, 60), where the truncation of the exact value is (19, 39, 60). At the
  index \<open>2 ^ 31\<close>, whose floor is at least \<open>nColours - 1\<close>, \<^verbatim>\<open>(int)colour\<close> is undefined: the
  code does not return the last stop.
\<close>

theorem getRGB_rounds_in_float:
  "f32 (7 / 10) = 11744051 / 16777216 \<and>
   getRGB demo_env (11744051 / 16777216) = Inr (17, 34, 51) \<and>
   (c_int ((1 - 11744051 / 16777216) * 10 + 11744051 / 16777216 * 20),
    c_int ((1 - 11744051 / 16777216) * 20 + 11744051 / 16777216 * 40),
    c_int ((1 - 11744051 / 16777216) * 30 + 11744051 / 16777216 * 61)) = (16, 33, 51) \<and>
   getRGB demo_env (8388607 / 8388608) = Inr (20, 40, 60) \<and>
   (c_int ((1 - 8388607 / 8388608) * 10 + 8388607 / 8388608 * 20),
    c_int ((1 - 8388607 / 8388608) * 20 + 8388607 / 8388608 * 40),
    c_int ((1 - 8388607 / 8388608) * 30 + 8388607 / 8388608 * 61)) = (19, 39, 60) \<and>
   int (length (paletteColours demo_env)) - 1 \<le> \<lfloor>2147483648 :: real\<rfloor> \<and>
   getRGB demo_env 2147483648 = Inl FloatToIntOutOfRange"
proof -
  have fraction1: "f32 (8388607 / 8388608) = 8388607 / 8388608"
    by (simp add: float_eval)
  have R1: "blend_channel (8388607 / 8388608) 10 20 = 20"
    by (simp add: blend_channel_def float_eval float_eval_small)
  have G1: "blend_channel (8388607 / 8388608) 20 40 = 40"
    by (simp add: blend_channel_def float_eval float_eval_small)
  have B1: "blend_channel (8388607 / 8388608) 30 61 = 15990783 / 262144"
    by (simp add: blend_channel_def float_eval float_eval_small)
  have one: "getRGB demo_env (8388607 / 8388608) = Inr (20, 40, 60)"
    using demo_palette_exact
    by (subst getRGB_mid)
       (simp_all add: fraction1 demo_env_def demo_palette_def R1 G1 B1 c_int_def)
  have one_exact:
    "(c_int ((1 - 8388607 / 8388608) * 10 + 8388607 / 8388608 * 20),
      c_int ((1 - 8388607 / 8388608) * 20 + 8388607 / 8388608 * 40),
      c_int ((1 - 8388607 / 8388608) * 30 + 8388607 / 8388608 * 61)) = (19, 39, 60)"
    by (simp add: c_int_def)
  have near: "f32 (7 / 10) = 11744051 / 16777216"
    by (simp add: float_eval)
  have fl: "\<lfloor>11744051 / 16777216 :: real\<rfloor> = 0"
    by simp
  have fraction: "f32 (11744051 / 16777216) = 11744051 / 16777216"
    by (simp add: float_eval)
  have R: "blend_channel (11744051 / 16777216) 10 20 = 17"
    by (simp add: blend_channel_def float_eval)
  have G: "blend_channel (11744051 / 16777216) 20 40 = 34"
    by (simp add: blend_channel_def float_eval)
  have B: "blend_channel (11744051 / 16777216) 30 61 = 13552845 / 262144"
    by (simp add: blend_channel_def float_eval)
  have "getRGB demo_env (11744051 / 16777216) = Inr (17, 34, 51)"
    using demo_palette_exact
    by (subst getRGB_mid)
       (simp_all add: fl fraction demo_env_def demo_palette_def R G B c_int_def)
  moreover have "getRGB demo_env 2147483648 = Inl FloatToIntOutOfRange"
    by (simp add: getRGB_def demo_env_def demo_palette_def nColours_def int_cast_defined_def)
  moreover have
    "(c_int ((1 - 11744051 / 16777216) * 10 + 11744051 / 16777216 * 20),
      c_int ((1 - 11744051 / 16777216) * 20 + 11744051 / 16777216 * 40),
      c_int ((1 - 11744051 / 16777216) * 30 + 11744051 / 16777216 * 61)) = (16, 33, 51)"
    by (simp add: c_int_def)
  moreover have "int (length (paletteColours demo_env)) - 1 \<le> \<lfloor>2147483648 :: real\<rfloor>"
    by (simp add: demo_env_def demo_palette_def)
  ultimately show ?thesis using near one one_exact by blast
qed

text \<open>
  Claim C5, amended. For every colour index, \<open>getRGB\<close> returns (128,128,128) on the empty
  palette and the single stop on a palette of one stop. On a palette of at least two
  stops, an index beyond the range of \<^verbatim>\<open>int\<close> makes \<^verbatim>\<open>(int)colour\<close> undefined. On a palette
  of at least two and at most \<open>2 ^ 24\<close> stops whose channels have magnitude at most
  \<open>2 ^ 24\<close>, and for an index within the range of \<^verbatim>\<open>int\<close>, \<open>getRGB\<close> returns stop 0 when the
  index is at most 0, the last stop when the floor of the index is at least
  \<open>nColours - 1\<close>, and otherwise, per channel, the truncation to an integer of the
  \<^verbatim>\<open>float\<close> the code computes for \<open>(1 - frac) * C[idx] + frac * C[idx + 1]\<close>, with \<open>idx\<close> the
  floor of the index and \<open>frac\<close> the \<^verbatim>\<open>float\<close> nearest the index minus \<open>idx\<close>: \<open>1 - frac\<close>,
  the first product and the sum rounded to \<^verbatim>\<open>double\<close>, the second product rounded to
  \<^verbatim>\<open>float\<close>, the sum rounded to \<^verbatim>\<open>float\<close> again (\<open>blend_channel\<close>).
\<close>

theorem getRGB_interpolates:
  "(paletteColours env = [] \<longrightarrow> getRGB env colour = Inr (128, 128, 128)) \<and>
   (length (paletteColours env) = 1 \<longrightarrow>
      getRGB env colour = Inr (rgb_triple (paletteColours env ! 0))) \<and>
   (2 \<le> length (paletteColours env) \<and> \<not> int_cast_defined colour \<longrightarrow>
      getRGB env colour = Inl FloatToIntOutOfRange) \<and>
   (2 \<le> length (paletteColours env) \<and> palette_exact env \<and> int_cast_defined colour \<and>
    colour \<le> 0 \<longrightarrow>
      getRGB env colour = Inr (rgb_triple (paletteColours env ! 0))) \<and>
   (2 \<le> length (paletteColours env) \<and> palette_exact env \<and> int_cast_defined colour \<and>
    int (length (paletteColours env)) - 1 \<le> \<lfloor>colour\<rfloor> \<longrightarrow>
      getRGB env colour =
        Inr (rgb_triple (paletteColours env ! (length (paletteColours env) - 1)))) \<and>
   (2 \<le> length (paletteColours env) \<and> palette_exact env \<and> 0 < colour \<and>
    \<lfloor>colour\<rfloor> < int (length (paletteColours env)) - 1 \<longrightarrow>
      getRGB env colour =
        Inr (let idx = nat \<lfloor>colour\<rfloor>; fraction = f32 (colour - real_of_int \<lfloor>colour\<rfloor>);
                 c1 = paletteColours env ! idx; c2 = paletteColours env ! (idx + 1)
             in (c_int (blend_channel fraction (rgb_R c1) (rgb_R c2)),
                 c_int (blend_channel fraction (rgb_G c1) (rgb_G c2)),
                 c_int (blend_channel fraction (rgb_B c1) (rgb_B c2)))))"
  using getRGB_empty getRGB_single getRGB_cast_fault getRGB_low getRGB_high getRGB_mid
  by blast

theorem getRGB_interpolates_witness:
  "getRGB (demo_env\<lparr>paletteColours := []\<rparr>) 1 = Inr (128, 128, 128) \<and>
   getRGB (demo_env\<lparr>paletteColours := [\<lparr>rgb_R = 7, rgb_G = 8, rgb_B = 9\<rparr>]\<rparr>) 5 =
     Inr (7, 8, 9) \<and>
   getRGB demo_env 3000000000 = Inl FloatToIntOutOfRange \<and>
   getRGB demo_env (- 2) = Inr (10, 20, 30) \<and>
   getRGB demo_env (5 / 2) = Inr (200, 100, 50) \<and>
   getRGB demo_env (1 / 2) = Inr (15, 30, 45)"
proof -
  have half: "f32 (1 / 2) = 1 / 2"
    by (simp add: float_eval)
  have blend: "blend_channel (1 / 2) 10 20 = 15" "blend_channel (1 / 2) 20 40 = 30"
    "blend_channel (1 / 2) 30 61 = 91 / 2"
    by (simp_all add: blend_channel_def float_eval)
  show ?thesis
    using getRGB_interpolates [of "demo_env\<lparr>paletteColours := []\<rparr>" 1]
      getRGB_interpolates [of "demo_env\<lparr>paletteColours := [\<lparr>rgb_R = 7, rgb_G = 8, rgb_B = 9\<rparr>]\<rparr>" 5]
      getRGB_interpolates [of demo_env 3000000000]
      getRGB_interpolates [of demo_env "- 2"]
      getRGB_interpolates [of demo_env "5 / 2"]
      getRGB_interpolates [of demo_env "1 / 2"]
      demo_palette_exact
    by (simp add: demo_env_def demo_palette_def rgb_triple_def c_int_def Let_def
        int_cast_defined_def half blend)
qed

subsection \<open>The strongest bin\<close>

lemma max_bin_fold_bounds:
  "0 \<le> snd acc \<Longrightarrow> snd acc < int m \<Longrightarrow> \<forall>i\<in>set xs. i < m \<Longrightarrow>
   0 \<le> snd (foldl (max_bin_step fftBins) acc xs) \<and>
   snd (foldl (max_bin_step fftBins) acc xs) < int m"
proof (induction xs arbitrary: acc)
  case Nil
  then show ?case by simp
next
  case (Cons i xs)
  have "0 \<le> snd (max_bin_step fftBins acc i) \<and> snd (max_bin_step fftBins acc i) < int m"
    using Cons.prems by (cases acc) (simp add: max_bin_step_def)
  with Cons.IH [of "max_bin_step fftBins acc i"] Cons.prems(3) show ?case by simp
qed

lemma strongest_bin_bounds: "0 \<le> strongest_bin fftBins \<and> strongest_bin fftBins < 32"
  using max_bin_fold_bounds [of "(0, 0)" N_FFT_BINS "[0..<N_FFT_BINS]" fftBins]
  by (simp add: strongest_bin_def N_FFT_BINS_def)

lemma max_bin_fold_silent: "foldl (max_bin_step (\<lambda>i. 0)) (0, 0) xs = (0, 0)"
  by (induction xs) (simp_all add: max_bin_step_def)

lemma strongest_bin_silent: "strongest_bin (\<lambda>i. 0) = 0"
  by (simp add: strongest_bin_def max_bin_fold_silent)

subsection \<open>The pool operations\<close>

lemma length_removeSource: "i < length srcs \<Longrightarrow> length (removeSource i srcs) = length srcs - 1"
  by (simp add: removeSource_def)

lemma removeSource_0: "removeSource 0 srcs = tl srcs"
  by (simp add: removeSource_def drop_Suc)

lemma merge_loop_None_iff:
  "merge_loop x y intensity speed srcs = None \<longleftrightarrow> (\<forall>s\<in>set srcs. src_position s \<noteq> (x, y))"
  by (induction srcs) (auto simp: src_position_def)

lemma merge_loop_length:
  "merge_loop x y intensity speed srcs = Some merged \<Longrightarrow> length merged = length srcs"
  by (induction srcs arbitrary: merged) (auto split: if_splits)

lemma merge_loop_Some:
  "merge_loop x y intensity speed srcs = Some merged \<Longrightarrow>
   \<exists>i<length srcs. src_position (srcs ! i) = (x, y) \<and>
     (\<forall>j<i. src_position (srcs ! j) \<noteq> (x, y)) \<and>
     merged = srcs[i := (srcs ! i)\<lparr>src_diffusion_age := 0, src_intensity := intensity,
                                 src_speed := speed\<rparr>]"
proof (induction srcs arbitrary: merged)
  case Nil
  then show ?case by simp
next
  case (Cons s srcs)
  show ?case
  proof (cases "src_x s = x \<and> src_y s = y")
    case True
    with Cons.prems have "merged = (s # srcs)[0 := ((s # srcs) ! 0)\<lparr>src_diffusion_age := 0,
        src_intensity := intensity, src_speed := speed\<rparr>]"
      by auto
    moreover have "src_position ((s # srcs) ! 0) = (x, y)"
      using True by (simp add: src_position_def)
    ultimately show ?thesis by blast
  next
    case False
    with Cons.prems obtain m where m: "merge_loop x y intensity speed srcs = Some m"
      and merged: "merged = s # m"
      by auto
    from Cons.IH [OF m] obtain i where i: "i < length srcs"
      "src_position (srcs ! i) = (x, y)" "\<forall>j<i. src_position (srcs ! j) \<noteq> (x, y)"
      "m = srcs[i := (srcs ! i)\<lparr>src_diffusion_age := 0, src_intensity := intensity,
                                 src_speed := speed\<rparr>]"
      by blast
    have first: "\<forall>j<Suc i. src_position ((s # srcs) ! j) \<noteq> (x, y)"
    proof (intro allI impI)
      fix j assume "j < Suc i"
      then show "src_position ((s # srcs) ! j) \<noteq> (x, y)"
        using False i(3) by (cases j) (auto simp: src_position_def)
    qed
    have "Suc i < length (s # srcs)" using i(1) by simp
    moreover have "src_position ((s # srcs) ! Suc i) = (x, y)" using i(2) by simp
    moreover have "merged = (s # srcs)[Suc i := ((s # srcs) ! Suc i)\<lparr>src_diffusion_age := 0,
        src_intensity := intensity, src_speed := speed\<rparr>]"
      using merged i(4) by simp
    ultimately show ?thesis using first by blast
  qed
qed

lemma insert_index_le: "insert_index v srcs n \<le> n"
  by (induction n) auto

lemma insert_index_after:
  "insert_index v srcs n \<le> j \<Longrightarrow> j < n \<Longrightarrow> v < src_intensity (srcs ! j)"
proof (induction n)
  case 0
  then show ?case by simp
next
  case (Suc n)
  show ?case
  proof (cases "v \<ge> src_intensity (srcs ! n)")
    case True
    with Suc.prems show ?thesis by simp
  next
    case False
    with Suc.prems have "insert_index v srcs n \<le> j" by simp
    with Suc.IH Suc.prems(2) False show ?thesis
      by (cases "j = n") auto
  qed
qed

lemma insert_index_before:
  "0 < insert_index v srcs n \<Longrightarrow> src_intensity (srcs ! (insert_index v srcs n - 1)) \<le> v"
  by (induction n) auto

lemma sorted_insert_at:
  assumes srt: "sorted (map src_intensity srcs)"
    and k: "k = insert_index (src_intensity new) srcs (length srcs)"
  shows "sorted (map src_intensity (take k srcs @ new # drop k srcs))"
proof -
  have kle: "k \<le> length srcs" using k insert_index_le by simp
  have s1: "sorted (map src_intensity (take k srcs))"
    using srt by (simp add: sorted_wrt_take flip: take_map)
  have s2: "sorted (map src_intensity (drop k srcs))"
    using srt by (simp add: sorted_wrt_drop flip: drop_map)
  have before: "src_intensity a \<le> src_intensity new" if "a \<in> set (take k srcs)" for a
  proof -
    from that obtain j where j: "j < k" "a = srcs ! j"
      using kle by (auto simp: in_set_conv_nth)
    then have kpos: "0 < k" by simp
    have "src_intensity (srcs ! j) \<le> src_intensity (srcs ! (k - 1))"
    proof -
      have "map src_intensity srcs ! j \<le> map src_intensity srcs ! (k - 1)"
        using srt j(1) kle kpos by (intro sorted_nth_mono) auto
      then show ?thesis using j(1) kle kpos by simp
    qed
    also have "\<dots> \<le> src_intensity new"
      using insert_index_before [of "src_intensity new" srcs "length srcs"] kpos k by simp
    finally show ?thesis using j(2) by simp
  qed
  have after: "src_intensity new \<le> src_intensity b" if "b \<in> set (drop k srcs)" for b
  proof -
    from that obtain j where j: "j < length srcs - k" "b = srcs ! (k + j)"
      using kle by (auto simp: in_set_conv_nth)
    have "src_intensity new < src_intensity (srcs ! (k + j))"
      using insert_index_after [of "src_intensity new" srcs "length srcs" "k + j"] k j(1) by simp
    then show ?thesis using j(2) by simp
  qed
  have trans: "src_intensity a \<le> src_intensity b"
    if "a \<in> set (take k srcs)" "b \<in> set (drop k srcs)" for a b
    using before [OF that(1)] after [OF that(2)] by simp
  show ?thesis
    using s1 s2 before after trans by (auto simp: sorted_append)
qed

lemma addSource_unfold:
  "addSource env u colour intensity speed energy st =
     (if st_r st < 0 \<or> nPanels env \<le> st_r st then Inl PanelIndexOutOfRange
      else
        case getRGB env colour of
          Inl e \<Rightarrow> Inl e
        | Inr rgb \<Rightarrow>
           (case merge_loop (fst (spawn_position env st)) (snd (spawn_position env st))
                   intensity speed (evict_if_full (st_sources st)) of
              Some merged \<Rightarrow>
                Inr (st\<lparr>st_sources := merged, st_r := rolled_r env u st,
                       st_count := rolled_count st\<rparr>)
            | None \<Rightarrow>
                Inr (st\<lparr>st_sources :=
                         take (insert_index intensity (evict_if_full (st_sources st))
                                 (length (evict_if_full (st_sources st))))
                           (evict_if_full (st_sources st))
                         @ new_source env rgb intensity speed energy st
                         # drop (insert_index intensity (evict_if_full (st_sources st))
                                   (length (evict_if_full (st_sources st))))
                             (evict_if_full (st_sources st)),
                       st_r := rolled_r env u st,
                       st_count := (if uint energy \<ge> ENERGY_THRESHOLD then BEAT_COUNT
                                    else rolled_count st)\<rparr>)))"
  by (simp add: addSource_def Let_def spawn_position_def evict_if_full_def rolled_r_def
      rolled_count_def new_source_def split: prod.split option.split sum.split)

lemma getRGB_Inl: "getRGB env colour = Inl e \<Longrightarrow> e = FloatToIntOutOfRange"
  by (auto simp: getRGB_def Let_def split: if_splits prod.splits)

lemma addSource_Inl_iff:
  "addSource env u colour intensity speed energy st = Inl e \<longleftrightarrow>
   (st_r st < 0 \<or> nPanels env \<le> st_r st) \<and> e = PanelIndexOutOfRange \<or>
   0 \<le> st_r st \<and> st_r st < nPanels env \<and> getRGB env colour = Inl e"
  by (auto simp: addSource_unfold split: option.splits sum.splits)

lemma length_evict_if_full:
  "length srcs \<le> MAX_SOURCES \<Longrightarrow> length (evict_if_full srcs) < MAX_SOURCES"
  by (auto simp: evict_if_full_def MAX_SOURCES_def removeSource_def)

lemma addSource_length:
  assumes "addSource env u colour intensity speed energy st = Inr st'"
    and "length (st_sources st) \<le> MAX_SOURCES"
  shows "length (st_sources st') \<le> MAX_SOURCES"
proof -
  have lt: "length (evict_if_full (st_sources st)) < MAX_SOURCES"
    using assms(2) by (rule length_evict_if_full)
  show ?thesis
  proof (cases "merge_loop (fst (spawn_position env st)) (snd (spawn_position env st))
               intensity speed (evict_if_full (st_sources st))")
    case None
    with assms(1) lt show ?thesis
      using insert_index_le [of intensity "evict_if_full (st_sources st)"
          "length (evict_if_full (st_sources st))"]
      by (auto simp: addSource_unfold split: if_splits sum.splits)
  next
    case (Some merged)
    with assms(1) lt merge_loop_length [OF Some] show ?thesis
      by (auto simp: addSource_unfold split: if_splits sum.splits)
  qed
qed

lemma addSource_calls_length:
  "addSource_calls env calls st = Inr st' \<Longrightarrow> length (st_sources st) \<le> MAX_SOURCES \<Longrightarrow>
   length (st_sources st') \<le> MAX_SOURCES"
proof (induction calls arbitrary: st)
  case Nil
  then show ?case by simp
next
  case (Cons c calls)
  obtain u colour intensity speed energy where c: "c = (u, colour, intensity, speed, energy)"
    by (cases c) auto
  from Cons.prems(1) c obtain st1 where
    st1: "addSource env u colour intensity speed energy st = Inr st1"
    and rest: "addSource_calls env calls st1 = Inr st'"
    by (auto split: sum.splits)
  from addSource_length [OF st1 Cons.prems(2)] Cons.IH [OF rest] show ?case by simp
qed

lemma addSource_at_capacity:
  assumes "length (st_sources st) = MAX_SOURCES"
  shows "addSource env u colour intensity speed energy st =
         addSource env u colour intensity speed energy
           (st\<lparr>st_sources := removeSource 0 (st_sources st)\<rparr>)"
proof -
  have e1: "evict_if_full (st_sources st) = removeSource 0 (st_sources st)"
    using assms by (simp add: evict_if_full_def)
  have e2: "evict_if_full (removeSource 0 (st_sources st)) = removeSource 0 (st_sources st)"
    using assms by (simp add: evict_if_full_def removeSource_def MAX_SOURCES_def)
  show ?thesis
    by (simp add: addSource_unfold e1 e2 spawn_position_def rolled_r_def rolled_count_def
        new_source_def split: option.split sum.split)
qed

lemma sorted_head_least:
  "sorted (map src_intensity srcs) \<Longrightarrow> s \<in> set srcs \<Longrightarrow>
   src_intensity (srcs ! 0) \<le> src_intensity s"
  by (cases srcs) auto

lemma sorted_evict_if_full:
  "sorted (map src_intensity srcs) \<Longrightarrow> sorted (map src_intensity (evict_if_full srcs))"
  by (cases srcs) (auto simp: evict_if_full_def removeSource_def drop_Suc)

lemma addSource_getRGB:
  assumes "addSource env u colour intensity speed energy st = Inr st'"
  obtains rgb where "getRGB env colour = Inr rgb"
  using assms by (auto simp: addSource_unfold split: if_splits sum.splits)

lemma addSource_insert_keeps_order:
  assumes "addSource env u colour intensity speed energy st = Inr st'"
    and "sorted (map src_intensity (st_sources st))"
    and "\<forall>s\<in>set (st_sources st). src_position s \<noteq> spawn_position env st"
  shows "sorted (map src_intensity (st_sources st'))"
proof -
  from assms(1) obtain rgb where rgb: "getRGB env colour = Inr rgb"
    by (rule addSource_getRGB)
  have "set (evict_if_full (st_sources st)) \<subseteq> set (st_sources st)"
    by (auto simp: evict_if_full_def removeSource_def dest: in_set_dropD)
  with assms(3) have none: "merge_loop (fst (spawn_position env st)) (snd (spawn_position env st))
      intensity speed (evict_if_full (st_sources st)) = None"
    by (auto simp: merge_loop_None_iff)
  have int: "src_intensity (new_source env rgb intensity speed energy st) = intensity"
    by (simp add: new_source_def)
  from sorted_insert_at [OF sorted_evict_if_full [OF assms(2)], of _
      "new_source env rgb intensity speed energy st"]
  have "sorted (map src_intensity
      (take (insert_index intensity (evict_if_full (st_sources st))
               (length (evict_if_full (st_sources st)))) (evict_if_full (st_sources st))
       @ new_source env rgb intensity speed energy st
       # drop (insert_index intensity (evict_if_full (st_sources st))
               (length (evict_if_full (st_sources st)))) (evict_if_full (st_sources st))))"
    using int by simp
  with assms(1) none rgb show ?thesis
    by (auto simp: addSource_unfold split: if_splits)
qed

lemma addSource_places:
  assumes "addSource env u colour intensity speed energy st = Inr st'"
  shows "\<exists>s\<in>set (st_sources st'). src_position s = spawn_position env st \<and>
           src_diffusion_age s = 0 \<and> src_intensity s = intensity \<and> src_speed s = speed"
proof (cases "merge_loop (fst (spawn_position env st)) (snd (spawn_position env st))
               intensity speed (evict_if_full (st_sources st))")
  case None
  from assms obtain rgb where rgb: "getRGB env colour = Inr rgb"
    by (rule addSource_getRGB)
  with None assms have "new_source env rgb intensity speed energy st \<in> set (st_sources st')"
    by (auto simp: addSource_unfold split: if_splits)
  moreover have "src_position (new_source env rgb intensity speed energy st) = spawn_position env st"
    by (simp add: new_source_def src_position_def)
  ultimately show ?thesis
    by (intro bexI [of _ "new_source env rgb intensity speed energy st"])
       (simp_all add: new_source_def)
next
  case (Some merged)
  from merge_loop_Some [OF Some] obtain i where i: "i < length (evict_if_full (st_sources st))"
    "src_position (evict_if_full (st_sources st) ! i) = spawn_position env st"
    "merged = (evict_if_full (st_sources st))[i := (evict_if_full (st_sources st) ! i)
        \<lparr>src_diffusion_age := 0, src_intensity := intensity, src_speed := speed\<rparr>]"
    by auto
  from assms Some have st': "st_sources st' = merged"
    by (auto simp: addSource_unfold split: if_splits sum.splits)
  let ?m = "(evict_if_full (st_sources st) ! i)
        \<lparr>src_diffusion_age := 0, src_intensity := intensity, src_speed := speed\<rparr>"
  have "?m \<in> set (st_sources st')"
    using st' i(1,3) by (auto simp: set_update_memI)
  moreover have "src_position ?m = spawn_position env st"
    using i(2) by (simp add: src_position_def)
  ultimately show ?thesis
    by (intro bexI [of _ ?m]) simp_all
qed

lemma addSource_returns:
  "0 \<le> st_r st \<Longrightarrow> st_r st < nPanels env \<Longrightarrow> getRGB env colour = Inr rgb \<Longrightarrow>
   \<exists>st'. addSource env u colour intensity speed energy st = Inr st'"
  by (simp add: addSource_unfold split: option.split)

lemma addSource_keeps_accumulators:
  "addSource env u colour intensity speed energy st = Inr st' \<Longrightarrow>
   st_n st' = st_n st \<and> st_maxBinIndexSum st' = st_maxBinIndexSum st"
  by (auto simp: addSource_unfold split: if_splits option.splits sum.splits)

text \<open>The definitions a concrete run unfolds.\<close>

lemmas demo_defs = demo_env_def demo_panels_def demo_palette_def init_state_def mk_source_def
  onset_source_def onset_at_def row_env_def row_panel_def nPanels_def nColours_def
  spawn_position_def evict_if_full_def MAX_SOURCES_def rolled_r_def rolled_count_def
  BEAT_COUNT_def ENERGY_THRESHOLD_def new_source_def getRGB_def int_cast_defined_def
  f32_numeral c_int_def removeSource_def src_position_def

lemmas tick_defs = getPluginFrame_def spawn_on_tick_def beat_features_def onset_features_def
  Let_def N_FFT_BINS_def INT_MAX_def INT_MIN_def c_div_def diffuseSources_def age_sources_def
  MIN_SIMULTANEOUS_COLOURS_def

text \<open>
  Claim C2 (the ordering after every \<open>addSource\<close> call, the merge branch included). The
  code does not keep it. Four onset ticks from the initial state leave two sources of
  intensity 0.7, at panel 0 and at panel 1, in order, with \<open>r\<close> back at panel 0. The
  \<open>addSource\<close> call of a beat (intensity 1.0) then merges into the first entry and
  overwrites its intensity in place: the intensities are 1.0, 0.7.
\<close>

theorem merge_breaks_order:
  "ticks grey_ColorUtils demo_env
     [(onset_features 60000, 0, 9 / 10), (onset_features 0, 0, 9 / 10),
      (onset_features 60000, 0, 1 / 10), (onset_features 0, 0, 1 / 10)] init_state =
     Inr two_onsets_state \<and>
   sorted (map src_intensity (st_sources two_onsets_state)) \<and>
   addSource demo_env (1 / 10) 0 1 (15 / 10) 0 two_onsets_state =
     Inr (two_onsets_state
            \<lparr>st_sources := [(onset_source 0 0 0)\<lparr>src_intensity := 1, src_speed := 15 / 10\<rparr>,
                             onset_source 75 43 (8 / 10)],
             st_count := 1\<rparr>) \<and>
   map src_intensity [(onset_source 0 0 0)\<lparr>src_intensity := 1, src_speed := 15 / 10\<rparr>,
                      onset_source 75 43 (8 / 10)] = [1, 7 / 10] \<and>
   \<not> sorted (map src_intensity
         [(onset_source 0 0 0)\<lparr>src_intensity := 1, src_speed := 15 / 10\<rparr>,
          onset_source 75 43 (8 / 10)])"
  by (simp add: tick_defs strongest_bin_silent addSource_unfold demo_defs
      two_onsets_state_def pool_two_onsets_def del: eq_divide_eq_numeral1)

text \<open>
  Claim C3, as stated, fails at capacity: the capacity test comes before the search for a
  source at the spawn position. The pool holds 15 sources and the one at index 1 sits at
  the spawn position; the call removes index 0, then merges: 14 sources are left.
\<close>

theorem merge_at_capacity_evicts:
  "length pool_full = 15 \<and>
   src_position (pool_full ! 1) = spawn_position row_env (init_state\<lparr>st_sources := pool_full\<rparr>) \<and>
   addSource row_env (9 / 10) 0 (7 / 10) (8 / 10) 0 (init_state\<lparr>st_sources := pool_full\<rparr>) =
     Inr (init_state\<lparr>st_sources := onset_source 0 0 0
                         # map onset_at [1, 2, 3, 4, 5, 6, 7, 8, 9, 10, 11, 12, 13],
                     st_count := 1\<rparr>) \<and>
   length (onset_source 0 0 0
           # map onset_at [1, 2, 3, 4, 5, 6, 7, 8, 9, 10, 11, 12, 13]) = 14"
  by (simp add: addSource_unfold demo_defs pool_full_def)

text \<open>
  Claim C3, amended. For every \<open>addSource\<close> call on a pool of fewer than 15 sources whose
  spawn position equals the position of some source of the pool, the call merges into the
  first such source (its \<open>diffusion_age\<close> reset to 0, its intensity and speed overwritten,
  its position, colour and energy kept); the pool count is unchanged, no source is evicted
  and every other entry is left unchanged. The call looks the colour up before it searches
  the pool, so that it returns where \<open>getRGB\<close> does, and stops with its fault otherwise.
\<close>

theorem addSource_merge_below_capacity:
  assumes "0 \<le> st_r st \<and> st_r st < nPanels env"
    and "length (st_sources st) < 15"
    and "\<exists>s\<in>set (st_sources st). src_position s = spawn_position env st"
  shows "\<exists>i<length (st_sources st).
           src_position (st_sources st ! i) = spawn_position env st \<and>
           (\<forall>j<i. src_position (st_sources st ! j) \<noteq> spawn_position env st) \<and>
           addSource env u colour intensity speed energy st =
             (case getRGB env colour of
                Inl e \<Rightarrow> Inl e
              | Inr rgb \<Rightarrow>
                  Inr (st\<lparr>st_sources := (st_sources st)[i := (st_sources st ! i)
                              \<lparr>src_diffusion_age := 0, src_intensity := intensity,
                               src_speed := speed\<rparr>],
                          st_r := rolled_r env u st, st_count := rolled_count st\<rparr>))"
proof -
  have ev: "evict_if_full (st_sources st) = st_sources st"
    using assms(2) by (simp add: evict_if_full_def MAX_SOURCES_def)
  from assms(3) obtain merged where m: "merge_loop (fst (spawn_position env st))
      (snd (spawn_position env st)) intensity speed (st_sources st) = Some merged"
    using merge_loop_None_iff [of "fst (spawn_position env st)" "snd (spawn_position env st)"
        intensity speed "st_sources st"]
    by auto
  from merge_loop_Some [OF m] obtain i where i: "i < length (st_sources st)"
    "src_position (st_sources st ! i) = spawn_position env st"
    "\<forall>j<i. src_position (st_sources st ! j) \<noteq> spawn_position env st"
    "merged = (st_sources st)[i := (st_sources st ! i)
        \<lparr>src_diffusion_age := 0, src_intensity := intensity, src_speed := speed\<rparr>]"
    by auto
  have "addSource env u colour intensity speed energy st =
      (case getRGB env colour of
         Inl e \<Rightarrow> Inl e
       | Inr rgb \<Rightarrow>
           Inr (st\<lparr>st_sources := merged, st_r := rolled_r env u st,
                  st_count := rolled_count st\<rparr>))"
    using assms(1) m ev by (simp add: addSource_unfold split: sum.split)
  with i show ?thesis by blast
qed

theorem addSource_merge_below_capacity_witness:
  "(0 \<le> st_r two_onsets_state \<and> st_r two_onsets_state < nPanels demo_env) \<and>
   length (st_sources two_onsets_state) < 15 \<and>
   src_position (st_sources two_onsets_state ! 0) = spawn_position demo_env two_onsets_state \<and>
   addSource demo_env (9 / 10) 0 1 (15 / 10) 0 two_onsets_state =
     Inr (two_onsets_state
            \<lparr>st_sources := [(onset_source 0 0 0)\<lparr>src_intensity := 1, src_speed := 15 / 10\<rparr>,
                             onset_source 75 43 (8 / 10)],
             st_count := 1\<rparr>)"
proof -
  let ?st = "two_onsets_state"
  have h1: "0 \<le> st_r ?st \<and> st_r ?st < nPanels demo_env"
    by (simp add: two_onsets_state_def demo_defs)
  have h2: "length (st_sources ?st) < 15"
    by (simp add: two_onsets_state_def pool_two_onsets_def)
  have at0: "src_position (st_sources ?st ! 0) = spawn_position demo_env ?st"
    by (simp add: two_onsets_state_def pool_two_onsets_def demo_defs)
  have h3: "\<exists>s\<in>set (st_sources ?st). src_position s = spawn_position demo_env ?st"
    by (simp add: two_onsets_state_def pool_two_onsets_def demo_defs)
  have rgb: "getRGB demo_env 0 = Inr (10, 20, 30)"
    by (simp add: demo_defs)
  from addSource_merge_below_capacity [OF h1 h2 h3, of "9 / 10" 0 1 "15 / 10" 0]
  obtain i where i: "i < length (st_sources ?st)"
    "src_position (st_sources ?st ! i) = spawn_position demo_env ?st"
    "addSource demo_env (9 / 10) 0 1 (15 / 10) 0 ?st =
       Inr (?st\<lparr>st_sources := (st_sources ?st)[i := (st_sources ?st ! i)
                         \<lparr>src_diffusion_age := 0, src_intensity := 1,
                          src_speed := 15 / 10\<rparr>],
                     st_r := rolled_r demo_env (9 / 10) ?st, st_count := rolled_count ?st\<rparr>)"
    unfolding rgb by auto
  have "i = 0"
    using i(1,2)
    by (cases i) (auto simp: two_onsets_state_def pool_two_onsets_def demo_defs less_Suc_eq)
  with i(3) have "addSource demo_env (9 / 10) 0 1 (15 / 10) 0 ?st =
     Inr (?st\<lparr>st_sources := [(onset_source 0 0 0)\<lparr>src_intensity := 1, src_speed := 15 / 10\<rparr>,
                              onset_source 75 43 (8 / 10)],
              st_count := 1\<rparr>)"
    by (simp add: two_onsets_state_def pool_two_onsets_def demo_defs)
  with h1 h2 at0 show ?thesis by blast
qed

text \<open>The run that fills the pool out of order.\<close>

lemma addSource_calls_append:
  "addSource_calls env (xs @ ys) st =
     (case addSource_calls env xs st of
        Inl e \<Rightarrow> Inl e
      | Inr st1 \<Rightarrow> addSource_calls env ys st1)"
  by (induction xs arbitrary: st) (auto split: sum.splits)

lemmas row_defs = long_row_env_def demo_palette_def row_panel_def nPanels_def nColours_def
  spawn_position_def evict_if_full_def MAX_SOURCES_def rolled_r_def rolled_count_def
  BEAT_COUNT_def ENERGY_THRESHOLD_def new_source_def getRGB_def int_cast_defined_def
  f32_numeral c_int_def removeSource_def src_position_def row_source_def merged_at_def
  insert_then_merge_def init_state_def

lemma run_pairs_low:
  "addSource_calls long_row_env (concat (map insert_then_merge [0, 1, 2, 3, 4, 5, 6]))
     init_state =
   Inr \<lparr>st_sources = row_source 0 10 1 (8 / 10) 60000 # map merged_at [1, 2, 3, 4, 5, 6],
        st_r = 7, st_count = 0, st_maxBinIndexSum = 0, st_n = 0\<rparr>"
  by (simp add: addSource_unfold row_defs)

lemma run_pairs_high:
  "addSource_calls long_row_env (concat (map insert_then_merge [7, 8, 9, 10, 11, 12, 13]))
     \<lparr>st_sources = row_source 0 10 1 (8 / 10) 60000 # map merged_at [1, 2, 3, 4, 5, 6],
      st_r = 7, st_count = 0, st_maxBinIndexSum = 0, st_n = 0\<rparr> =
   Inr \<lparr>st_sources = row_source 0 10 1 (8 / 10) 60000
          # map merged_at [1, 2, 3, 4, 5, 6, 7, 8, 9, 10, 11, 12, 13],
        st_r = 14, st_count = 0, st_maxBinIndexSum = 0, st_n = 0\<rparr>"
  by (simp add: addSource_unfold row_defs)

lemma run_fill:
  "addSource_calls long_row_env (replicate 7 (0, 0, 1 / 2, 8 / 10, 0))
     \<lparr>st_sources = row_source 0 10 1 (8 / 10) 60000
        # map merged_at [1, 2, 3, 4, 5, 6, 7, 8, 9, 10, 11, 12, 13],
      st_r = 14, st_count = 0, st_maxBinIndexSum = 0, st_n = 0\<rparr> =
   Inr \<lparr>st_sources = row_source 14 5 (1 / 2) (8 / 10) 0 # row_source 0 10 1 (8 / 10) 60000
          # map merged_at [1, 2, 3, 4, 5, 6, 7, 8, 9, 10, 11, 12, 13],
        st_r = 14, st_count = 7, st_maxBinIndexSum = 0, st_n = 0\<rparr>"
  by (simp add: addSource_unfold row_defs numeral_eq_Suc)

lemma run_last:
  "addSource_calls long_row_env [(33 / 34, 0, 1, 15 / 10, 0)]
     \<lparr>st_sources = row_source 14 5 (1 / 2) (8 / 10) 0 # row_source 0 10 1 (8 / 10) 60000
        # map merged_at [1, 2, 3, 4, 5, 6, 7, 8, 9, 10, 11, 12, 13],
      st_r = 14, st_count = 7, st_maxBinIndexSum = 0, st_n = 0\<rparr> =
   Inr unordered_state"
  by (simp add: addSource_unfold row_defs unordered_state_def pool_unordered_def)

lemma run_to_full: "addSource_calls long_row_env calls_to_full init_state = Inr unordered_state"
proof -
  have split: "concat (map insert_then_merge [0, 1, 2, 3, 4, 5, 6, 7, 8, 9, 10, 11, 12, 13]) =
      concat (map insert_then_merge [0, 1, 2, 3, 4, 5, 6])
      @ concat (map insert_then_merge [7, 8, 9, 10, 11, 12, 13])"
    by simp
  show ?thesis
    unfolding calls_to_full_def split
    by (simp only: addSource_calls_append run_pairs_low run_pairs_high run_fill run_last
        sum.case append_assoc)
qed

lemma evicting_insert:
  "addSource long_row_env 0 0 (7 / 10) (8 / 10) 0 unordered_state =
   Inr (unordered_state
          \<lparr>st_sources := map merged_at [1, 2, 3, 4, 5, 6, 7, 8, 9, 10, 11, 12, 13]
             @ [row_source 15 7 (7 / 10) (8 / 10) 0, row_source 14 10 1 (15 / 10) 0],
           st_count := 1\<rparr>)"
  by (simp add: addSource_unfold row_defs unordered_state_def pool_unordered_def)

lemma unordered_state_fresh_spawn:
  "spawn_position long_row_env unordered_state
     \<notin> src_position ` set (st_sources unordered_state)"
  by (simp add: row_defs unordered_state_def pool_unordered_def)

text \<open>
  Claim C4, as stated, fails in its second half: the pool is not kept in order of
  intensity (claim C2), so the entry at index 0 need not be the weakest. The run
  \<open>calls_to_full\<close> from the empty pool leaves fifteen sources of intensities 1.0, thirteen
  times 0.7, and 1.0, with \<open>r\<close> at panel 15, where no source sits. The next call inserts:
  it removes the entry at index 0, of intensity 1.0, and keeps the entry at index 1, of
  intensity 0.7.
\<close>

theorem eviction_removes_stronger_source:
  "st_sources init_state = [] \<and>
   addSource_calls long_row_env calls_to_full init_state = Inr unordered_state \<and>
   length (st_sources unordered_state) = 15 \<and>
   spawn_position long_row_env unordered_state
     \<notin> src_position ` set (st_sources unordered_state) \<and>
   addSource long_row_env 0 0 (7 / 10) (8 / 10) 0 unordered_state =
     Inr (unordered_state
            \<lparr>st_sources := map merged_at [1, 2, 3, 4, 5, 6, 7, 8, 9, 10, 11, 12, 13]
               @ [row_source 15 7 (7 / 10) (8 / 10) 0, row_source 14 10 1 (15 / 10) 0],
             st_count := 1\<rparr>) \<and>
   st_sources unordered_state ! 0 = row_source 0 10 1 (8 / 10) 60000 \<and>
   row_source 0 10 1 (8 / 10) 60000
     \<notin> set (map merged_at [1, 2, 3, 4, 5, 6, 7, 8, 9, 10, 11, 12, 13]
            @ [row_source 15 7 (7 / 10) (8 / 10) 0, row_source 14 10 1 (15 / 10) 0]) \<and>
   st_sources unordered_state ! 1 = merged_at 1 \<and>
   src_intensity (merged_at 1) = 7 / 10 \<and>
   src_intensity (row_source 0 10 1 (8 / 10) 60000) = 1"
proof -
  have "st_sources unordered_state ! 0 = row_source 0 10 1 (8 / 10) 60000"
    and "st_sources unordered_state ! 1 = merged_at 1"
    and "length (st_sources unordered_state) = 15"
    by (simp_all add: unordered_state_def pool_unordered_def)
  moreover have "row_source 0 10 1 (8 / 10) 60000
     \<notin> set (map merged_at [1, 2, 3, 4, 5, 6, 7, 8, 9, 10, 11, 12, 13]
            @ [row_source 15 7 (7 / 10) (8 / 10) 0, row_source 14 10 1 (15 / 10) 0])"
    by (simp add: row_source_def merged_at_def)
  moreover have "src_intensity (merged_at 1) = 7 / 10"
    and "src_intensity (row_source 0 10 1 (8 / 10) 60000) = 1"
    by (simp_all add: row_source_def merged_at_def)
  moreover have "st_sources init_state = []"
    by (simp add: init_state_def)
  ultimately show ?thesis
    using run_to_full evicting_insert unordered_state_fresh_spawn by blast
qed

text \<open>An inserting call on a full pool: what it returns.\<close>

lemma addSource_full_insert:
  assumes len: "length (st_sources st) = 15"
    and fresh: "\<forall>s\<in>set (tl (st_sources st)). src_position s \<noteq> spawn_position env st"
    and ret: "addSource env u colour intensity speed energy st = Inr st1"
  shows "\<exists>rgb. getRGB env colour = Inr rgb \<and>
           st_sources st1 =
             take (insert_index intensity (tl (st_sources st)) 14) (tl (st_sources st))
             @ new_source env rgb intensity speed energy st
             # drop (insert_index intensity (tl (st_sources st)) 14) (tl (st_sources st))"
proof -
  from ret obtain rgb where rgb: "getRGB env colour = Inr rgb"
    by (rule addSource_getRGB)
  have ev: "evict_if_full (st_sources st) = tl (st_sources st)"
    using len by (simp add: evict_if_full_def MAX_SOURCES_def removeSource_0)
  from fresh have none: "merge_loop (fst (spawn_position env st)) (snd (spawn_position env st))
      intensity speed (tl (st_sources st)) = None"
    by (simp add: merge_loop_None_iff)
  from ret rgb none have "st_sources st1 =
      take (insert_index intensity (tl (st_sources st)) 14) (tl (st_sources st))
      @ new_source env rgb intensity speed energy st
      # drop (insert_index intensity (tl (st_sources st)) 14) (tl (st_sources st))"
    by (auto simp: addSource_unfold ev len split: if_splits)
  with rgb show ?thesis by blast
qed

text \<open>
  Claim C4, amended. For every sequence of \<open>addSource\<close> calls starting from the empty
  pool, the number of sources never exceeds 15; when an insertion would exceed capacity
  (the pool holds 15 sources and none of them, the one at index 0 apart, is at the spawn
  position), the source at index 0 is removed first, whatever its intensity: the call
  returns the other fourteen sources, in their order, with the new source placed among
  them by its intensity.
\<close>

theorem addSource_capacity:
  "(st_sources st0 = [] \<and> addSource_calls env calls st0 = Inr st' \<longrightarrow>
      length (st_sources st') \<le> 15) \<and>
   (length (st_sources st) = 15 \<and>
    (\<forall>s\<in>set (tl (st_sources st)). src_position s \<noteq> spawn_position env st) \<and>
    addSource env u colour intensity speed energy st = Inr st1 \<longrightarrow>
      length (st_sources st1) = 15 \<and>
      (\<exists>rgb. getRGB env colour = Inr rgb \<and>
         st_sources st1 =
           take (insert_index intensity (tl (st_sources st)) 14) (tl (st_sources st))
           @ new_source env rgb intensity speed energy st
           # drop (insert_index intensity (tl (st_sources st)) 14) (tl (st_sources st))))"
proof (intro conjI impI)
  assume "st_sources st0 = [] \<and> addSource_calls env calls st0 = Inr st'"
  then show "length (st_sources st') \<le> 15"
    using addSource_calls_length [of env calls st0 st'] by (simp add: MAX_SOURCES_def)
next
  assume a: "length (st_sources st) = 15 \<and>
    (\<forall>s\<in>set (tl (st_sources st)). src_position s \<noteq> spawn_position env st) \<and>
    addSource env u colour intensity speed energy st = Inr st1"
  then show "\<exists>rgb. getRGB env colour = Inr rgb \<and>
         st_sources st1 =
           take (insert_index intensity (tl (st_sources st)) 14) (tl (st_sources st))
           @ new_source env rgb intensity speed energy st
           # drop (insert_index intensity (tl (st_sources st)) 14) (tl (st_sources st))"
    using addSource_full_insert by blast
  then obtain rgb where "st_sources st1 =
           take (insert_index intensity (tl (st_sources st)) 14) (tl (st_sources st))
           @ new_source env rgb intensity speed energy st
           # drop (insert_index intensity (tl (st_sources st)) 14) (tl (st_sources st))"
    by blast
  moreover have "length (tl (st_sources st)) = 14" using a by simp
  ultimately show "length (st_sources st1) = 15"
    by simp
qed

theorem addSource_capacity_witness:
  "st_sources init_state = [] \<and>
   addSource_calls long_row_env calls_to_full init_state = Inr unordered_state \<and>
   length (st_sources unordered_state) = 15 \<and>
   spawn_position long_row_env unordered_state
     \<notin> src_position ` set (tl (st_sources unordered_state)) \<and>
   (\<exists>st1. addSource long_row_env 0 0 (7 / 10) (8 / 10) 0 unordered_state = Inr st1 \<and>
      length (st_sources st1) = 15 \<and>
      st_sources st1 =
        take 13 (tl pool_unordered) @ row_source 15 7 (7 / 10) (8 / 10) 0
        # drop 13 (tl pool_unordered))"
proof -
  let ?st1 = "unordered_state
          \<lparr>st_sources := map merged_at [1, 2, 3, 4, 5, 6, 7, 8, 9, 10, 11, 12, 13]
             @ [row_source 15 7 (7 / 10) (8 / 10) 0, row_source 14 10 1 (15 / 10) 0],
           st_count := 1\<rparr>"
  have e: "st_sources init_state = []" by (simp add: init_state_def)
  have len: "length (st_sources unordered_state) = 15"
    by (simp add: unordered_state_def pool_unordered_def)
  have fresh: "spawn_position long_row_env unordered_state
     \<notin> src_position ` set (tl (st_sources unordered_state))"
    by (simp add: row_defs unordered_state_def pool_unordered_def)
  then have fresh': "\<forall>s\<in>set (tl (st_sources unordered_state)).
      src_position s \<noteq> spawn_position long_row_env unordered_state"
    by (metis image_eqI)
  from addSource_capacity [where ?st0.0 = init_state and env = long_row_env
      and calls = calls_to_full and st' = unordered_state and st = unordered_state
      and u = 0 and colour = 0 and intensity = "7 / 10" and speed = "8 / 10" and energy = 0
      and ?st1.0 = ?st1]
    e run_to_full len fresh' evicting_insert
  have "length (st_sources unordered_state) \<le> 15" and "length (st_sources ?st1) = 15"
    by blast+
  moreover have "st_sources ?st1 =
        take 13 (tl pool_unordered) @ row_source 15 7 (7 / 10) (8 / 10) 0
        # drop 13 (tl pool_unordered)"
    by (simp add: pool_unordered_def)
  ultimately show ?thesis
    using e run_to_full len fresh evicting_insert by blast
qed

text \<open>
  Claim C8, as stated, fails: the spawn position is read before the counter is tested.
  Two calls with energy 60000 from the initial state, the draw choosing panel 1: the
  second call still spawns at panel 0, the panel of the first call, and merges into its
  source; the pool holds one source, at (0, 0), and \<open>r\<close> is 1 only afterwards.
\<close>

theorem next_call_same_panel:
  "addSource_calls demo_env
      [(9 / 10, 0, 1, 15 / 10, 60000), (9 / 10, 0, 1, 15 / 10, 60000)] init_state =
     Inr (init_state\<lparr>st_sources := [(mk_source 0 0 0 1 (15 / 10))\<lparr>src_energy := 60000\<rparr>],
                     st_r := 1\<rparr>) \<and>
   src_position ((mk_source 0 0 0 1 (15 / 10))\<lparr>src_energy := 60000\<rparr>)
     = spawn_position demo_env init_state \<and>
   c_int (9 / 10 * real_of_int (nPanels demo_env) - 1) = 1"
  by (simp add: addSource_unfold demo_defs)

lemma forced_roll_after_insert:
  assumes "addSource env u colour intensity speed energy st = Inr st1"
    and "50000 \<le> uint energy"
    and "\<forall>s\<in>set (st_sources st). src_position s \<noteq> spawn_position env st"
  shows "st_count st1 = 8 \<and> st_r st1 = rolled_r env u st"
proof -
  have "set (evict_if_full (st_sources st)) \<subseteq> set (st_sources st)"
    by (auto simp: evict_if_full_def removeSource_def dest: in_set_dropD)
  with assms(3) have none: "merge_loop (fst (spawn_position env st)) (snd (spawn_position env st))
      intensity speed (evict_if_full (st_sources st)) = None"
    by (auto simp: merge_loop_None_iff)
  from assms(1,2) none show ?thesis
    by (auto simp: addSource_unfold ENERGY_THRESHOLD_def BEAT_COUNT_def
      split: if_splits sum.splits)
qed

lemma roll_when_counter_full:
  assumes "addSource env u colour intensity speed energy st = Inr st'"
    and "st_count st = 8"
  shows "st_r st' = c_int (u * real_of_int (nPanels env) - 1)"
  using assms
  by (auto simp: addSource_unfold rolled_r_def BEAT_COUNT_def
      split: if_splits option.splits sum.splits)

text \<open>
  The call that follows a forced advance still spawns at the panel index the forcing call
  left, which is the forcing call's own panel unless that call has itself drawn a new
  index.
\<close>

lemma following_call_spawns_at_left_index:
  assumes "addSource env u colour intensity speed energy st = Inr st1"
    and "50000 \<le> uint energy"
    and "\<forall>s\<in>set (st_sources st). src_position s \<noteq> spawn_position env st"
    and "addSource env u' colour' intensity' speed' energy' st1 = Inr st2"
  shows "(st_count st + 1 < 8 \<longrightarrow> spawn_position env st1 = spawn_position env st) \<and>
         (\<exists>s\<in>set (st_sources st2). src_position s = spawn_position env st1 \<and>
            src_diffusion_age s = 0 \<and> src_intensity s = intensity' \<and> src_speed s = speed')"
proof -
  from forced_roll_after_insert [OF assms(1-3)] have r1: "st_r st1 = rolled_r env u st"
    by simp
  have "spawn_position env st1 = spawn_position env st" if "st_count st + 1 < 8"
    using that r1 by (simp add: spawn_position_def rolled_r_def BEAT_COUNT_def)
  with addSource_places [OF assms(4)] show ?thesis by blast
qed

text \<open>
  Claim C8, amended. For every \<open>addSource\<close> call that inserts a new source (no source of
  the pool is at its spawn position) and whose supplied energy is at least 50000, the
  rotation counter is force-advanced (set to \<open>BEAT_COUNT\<close>), so that a fresh (randomly
  chosen) panel index is drawn during the immediately following \<open>addSource\<close> call, and the
  call after that one resolves its spawn position from the fresh index.
\<close>

theorem forced_roll_serves_second_next_call:
  assumes "addSource env u colour intensity speed energy st = Inr st1"
    and "50000 \<le> uint energy"
    and "\<forall>s\<in>set (st_sources st). src_position s \<noteq> spawn_position env st"
    and "addSource env u' colour' intensity' speed' energy' st1 = Inr st2"
    and "addSource env u'' colour'' intensity'' speed'' energy'' st2 = Inr st3"
  shows "st_count st1 = 8 \<and>
         st_r st2 = c_int (u' * real_of_int (nPanels env) - 1) \<and>
         (\<exists>s\<in>set (st_sources st3).
            src_x s = centroid_x (panels env ! nat (c_int (u' * real_of_int (nPanels env) - 1))) \<and>
            src_y s = centroid_y (panels env ! nat (c_int (u' * real_of_int (nPanels env) - 1))) \<and>
            src_diffusion_age s = 0 \<and> src_intensity s = intensity'' \<and> src_speed s = speed'')"
proof -
  from forced_roll_after_insert [OF assms(1-3)] have c1: "st_count st1 = 8" by simp
  from roll_when_counter_full [OF assms(4) c1]
  have r2: "st_r st2 = c_int (u' * real_of_int (nPanels env) - 1)" .
  from addSource_places [OF assms(5)] obtain s where s: "s \<in> set (st_sources st3)"
    "src_position s = spawn_position env st2" "src_diffusion_age s = 0"
    "src_intensity s = intensity''" "src_speed s = speed''"
    by blast
  from s(2) r2 have
    "src_x s = centroid_x (panels env ! nat (c_int (u' * real_of_int (nPanels env) - 1)))"
    "src_y s = centroid_y (panels env ! nat (c_int (u' * real_of_int (nPanels env) - 1)))"
    by (simp_all add: src_position_def spawn_position_def)
  with c1 r2 s show ?thesis by blast
qed

theorem forced_roll_serves_second_next_call_witness:
  "\<exists>st1 st2 st3.
     addSource demo_env (9 / 10) 0 1 (15 / 10) 60000 init_state = Inr st1 \<and>
     addSource demo_env (9 / 10) 2 (7 / 10) (8 / 10) 0 st1 = Inr st2 \<and>
     addSource demo_env (1 / 10) 2 (7 / 10) (8 / 10) 0 st2 = Inr st3 \<and>
     st_count st1 = 8 \<and> st_r st2 = 1 \<and>
     (\<exists>s\<in>set (st_sources st3). src_x s = 75 \<and> src_y s = 43 \<and> src_intensity s = 7 / 10)"
proof -
  have rgb0: "getRGB demo_env 0 = Inr (10, 20, 30)"
    and rgb2: "getRGB demo_env 2 = Inr (200, 100, 50)"
    by (simp_all add: demo_defs)
  have "0 \<le> st_r init_state" and "st_r init_state < nPanels demo_env"
    by (simp_all add: demo_defs)
  from addSource_returns [OF this rgb0, of "9 / 10" 1 "15 / 10" 60000]
  obtain st1 where st1: "addSource demo_env (9 / 10) 0 1 (15 / 10) 60000 init_state = Inr st1"
    by blast
  have h2: "50000 \<le> uint (60000 :: 16 word)" by simp
  have h3: "\<forall>s\<in>set (st_sources init_state). src_position s \<noteq> spawn_position demo_env init_state"
    by (simp add: init_state_def)
  have r1: "st_r st1 = 0"
    using st1 by (auto simp: addSource_unfold demo_defs)
  have "0 \<le> st_r st1" and "st_r st1 < nPanels demo_env"
    using r1 by (simp_all add: demo_defs)
  from addSource_returns [OF this rgb2, of "9 / 10" "7 / 10" "8 / 10" 0]
  obtain st2 where st2: "addSource demo_env (9 / 10) 2 (7 / 10) (8 / 10) 0 st1 = Inr st2"
    by blast
  have r2: "st_r st2 = 1"
    using roll_when_counter_full [OF st2] forced_roll_after_insert [OF st1 h2 h3]
    by (simp add: demo_defs)
  have "0 \<le> st_r st2" and "st_r st2 < nPanels demo_env"
    using r2 by (simp_all add: demo_defs)
  from addSource_returns [OF this rgb2, of "1 / 10" "7 / 10" "8 / 10" 0]
  obtain st3 where st3: "addSource demo_env (1 / 10) 2 (7 / 10) (8 / 10) 0 st2 = Inr st3"
    by blast
  from forced_roll_serves_second_next_call [OF st1 h2 h3 st2 st3]
  have "st_count st1 = 8 \<and> st_r st2 = 1 \<and>
     (\<exists>s\<in>set (st_sources st3). src_x s = 75 \<and> src_y s = 43 \<and> src_intensity s = 7 / 10)"
    by (auto simp: demo_defs)
  with st1 st2 st3 show ?thesis by blast
qed

subsection \<open>Aging and pruning\<close>

lemma prune_loop_filter:
  "prune_loop i srcs =
     take i srcs @ filter (\<lambda>s. \<not> src_diffusion_age s > MAX_DIFFUSION_AGE) (drop i srcs)"
proof (induction i srcs rule: prune_loop.induct)
  case (1 i srcs)
  show ?case
  proof (cases "i < length srcs")
    case False
    then show ?thesis by (simp add: prune_loop.simps [of i srcs])
  next
    case inb: True
    then have split: "drop i srcs = srcs ! i # drop (Suc i) srcs"
      by (simp add: Cons_nth_drop_Suc)
    show ?thesis
    proof (cases "src_diffusion_age (srcs ! i) > MAX_DIFFUSION_AGE")
      case True
      have "prune_loop i srcs = prune_loop i (removeSource i srcs)"
        using inb True by (simp add: prune_loop.simps [of i srcs])
      also have "\<dots> = take i (removeSource i srcs) @
          filter (\<lambda>s. \<not> src_diffusion_age s > MAX_DIFFUSION_AGE) (drop i (removeSource i srcs))"
        using "1.IH"(1) inb True by simp
      also have "take i (removeSource i srcs) = take i srcs"
        using inb by (simp add: removeSource_def)
      also have "drop i (removeSource i srcs) = drop (Suc i) srcs"
        using inb by (simp add: removeSource_def)
      finally show ?thesis using True split by simp
    next
      case False
      have "prune_loop i srcs = prune_loop (Suc i) srcs"
        using inb False by (simp add: prune_loop.simps [of i srcs])
      also have "\<dots> = take (Suc i) srcs @
          filter (\<lambda>s. \<not> src_diffusion_age s > MAX_DIFFUSION_AGE) (drop (Suc i) srcs)"
        using "1.IH"(2) inb False by simp
      finally show ?thesis using False split inb by (simp add: take_Suc_conv_app_nth)
    qed
  qed
qed


text \<open>
  Claim C6. Every call of \<open>diffuseSources\<close> adds each source's own speed to its
  \<open>diffusion_age\<close>; then, if and only if the population exceeds 2, it removes every source
  whose age strictly exceeds 15.0, keeping the others in their order; with a population of
  at most 2, no source is removed, whatever its age.
\<close>

theorem diffuseSources_ages_then_prunes:
  "diffuseSources srcs =
     (if length srcs > 2
      then filter (\<lambda>s. \<not> src_diffusion_age s > 15)
             (map (\<lambda>s. s\<lparr>src_diffusion_age := src_diffusion_age s + src_speed s\<rparr>) srcs)
      else map (\<lambda>s. s\<lparr>src_diffusion_age := src_diffusion_age s + src_speed s\<rparr>) srcs)"
  by (simp add: diffuseSources_def Let_def age_sources_def prune_loop_filter
      MIN_SIMULTANEOUS_COLOURS_def MAX_DIFFUSION_AGE_def)

text \<open>The pools that a call of \<open>diffuseSources\<close> empties.\<close>

lemma pruned_to_empty_iff:
  "diffuseSources srcs = [] \<longleftrightarrow>
     srcs = [] \<or>
     (2 < length srcs \<and> (\<forall>s\<in>set srcs. 15 < src_diffusion_age s + src_speed s))"
  by (auto simp: diffuseSources_def Let_def age_sources_def prune_loop_filter
      MIN_SIMULTANEOUS_COLOURS_def MAX_DIFFUSION_AGE_def filter_empty_conv)

subsection \<open>The tick\<close>

lemma spawn_on_tick_ignores_tempo:
  "spawn_on_tick env (ft\<lparr>getTempo := tempo\<rparr>) u_colour u_panel st =
   spawn_on_tick env ft u_colour u_panel st"
  by (simp add: spawn_on_tick_def Let_def)

lemma first_beat_tick:
  "getPluginFrame cu demo_env (beat_features 100) 0 (9 / 10) init_state =
     Inr (render_frames cu demo_env [mk_source 0 0 0 1 (15 / 10)],
          init_state\<lparr>st_sources := [mk_source 0 0 (15 / 10) 1 (15 / 10)], st_count := 1\<rparr>)"
  by (simp add: getPluginFrame_def spawn_on_tick_def beat_features_def Let_def strongest_bin_silent
      N_FFT_BINS_def INT_MAX_def INT_MIN_def c_div_def addSource_unfold demo_defs
      diffuseSources_def age_sources_def MIN_SIMULTANEOUS_COLOURS_def)

lemma reachable_after_beat:
  "reachable cu demo_env
     (init_state\<lparr>st_sources := [mk_source 0 0 (15 / 10) 1 (15 / 10)], st_count := 1\<rparr>)"
  using reachable_tick [OF reachable_init first_beat_tick] .

text \<open>
  Claim C1 (on a beat, \<open>addSource\<close> is called with the speed \<open>max(0.2, tempo/50)\<close>). The
  code computes that speed and passes the literal 1.5. A beat tick with tempo 100 in the
  initial state: the claim's speed is 2, the source is created with speed 1.5 (and has
  aged by 1.5 at the end of the tick).
\<close>

theorem beat_speed_ignores_tempo:
  "max (2 / 10) (real_of_int (getTempo (beat_features 100)) / 50) = 2 \<and>
   spawn_on_tick demo_env (beat_features 100) 0 (9 / 10) init_state =
     Inr (init_state\<lparr>st_sources := [mk_source 0 0 0 1 (15 / 10)], st_count := 1\<rparr>) \<and>
   src_speed (mk_source 0 0 0 1 (15 / 10)) = 15 / 10 \<and>
   getPluginFrame grey_ColorUtils demo_env (beat_features 100) 0 (9 / 10) init_state =
     Inr (render_frames grey_ColorUtils demo_env [mk_source 0 0 0 1 (15 / 10)],
          init_state\<lparr>st_sources := [mk_source 0 0 (15 / 10) 1 (15 / 10)], st_count := 1\<rparr>)"
  by (simp add: getPluginFrame_def spawn_on_tick_def beat_features_def Let_def
      strongest_bin_silent N_FFT_BINS_def INT_MAX_def INT_MIN_def c_div_def addSource_unfold
      demo_defs diffuseSources_def age_sources_def MIN_SIMULTANEOUS_COLOURS_def)

lemma spawn_on_tick_n_nonneg:
  assumes "spawn_on_tick env ft u_colour u_panel st = Inr st2" and "0 \<le> st_n st"
  shows "0 \<le> st_n st2"
proof (cases "getIsBeat ft")
  case True
  with assms(1) obtain colour where
    "addSource env u_panel colour 1 (15 / 10) (getEnergy ft)
       (st\<lparr>st_maxBinIndexSum := 0, st_n := 0\<rparr>) = Inr st2"
    by (auto simp: spawn_on_tick_def Let_def split: if_splits)
  from addSource_keeps_accumulators [OF this] show ?thesis by simp
next
  case False
  show ?thesis
  proof (cases "getIsOnset ft")
    case True
    with assms(1) \<open>\<not> getIsBeat ft\<close> obtain colour s where
      "addSource env u_panel colour (7 / 10) (8 / 10) (getEnergy ft)
         (st\<lparr>st_maxBinIndexSum := s, st_n := st_n st + 1\<rparr>) = Inr st2"
      by (auto simp: spawn_on_tick_def Let_def split: if_splits)
    from addSource_keeps_accumulators [OF this] assms(2) show ?thesis by simp
  next
    case False
    with assms \<open>\<not> getIsBeat ft\<close> show ?thesis
      by (auto simp: spawn_on_tick_def Let_def split: if_splits)
  qed
qed

lemma getPluginFrame_n_nonneg:
  assumes "getPluginFrame cu env ft u_colour u_panel st = Inr (frames, st')" and "0 \<le> st_n st"
  shows "0 \<le> st_n st'"
proof -
  from assms(1) obtain st2 where s: "spawn_on_tick env ft u_colour u_panel st = Inr st2"
    and st': "st' = st2\<lparr>st_sources := diffuseSources (st_sources st2)\<rparr>"
    by (auto simp: getPluginFrame_def split: sum.splits)
  from spawn_on_tick_n_nonneg [OF s assms(2)] st' show ?thesis by simp
qed

lemma reachable_n_nonneg: "reachable cu env st \<Longrightarrow> 0 \<le> st_n st"
proof (induction rule: reachable.induct)
  case reachable_init
  show ?case by (simp add: init_state_def)
next
  case (reachable_tick st ft u_colour u_panel frames st')
  then show ?case using getPluginFrame_n_nonneg by blast
qed

lemma spawn_on_tick_div_fault:
  "spawn_on_tick env ft u_colour u_panel st = Inl DivisionByZero \<Longrightarrow> st_n st + 1 = 0"
  by (auto simp: spawn_on_tick_def Let_def addSource_Inl_iff split: if_splits
      dest: getRGB_Inl)

text \<open>
  Claim C10. In every tick, \<open>n\<close> is incremented before the beat branch is evaluated: in
  every state the plugin can be in (the initial state, and every state a tick returns,
  the ticks that reset \<open>n\<close> on a beat included), the divisor \<open>n + 1\<close> of
  \<^verbatim>\<open>maxBinIndexSum / n\<close> is strictly positive, and the tick never divides by zero.
\<close>

theorem divisor_positive:
  assumes "reachable cu env st"
  shows "0 < st_n st + 1 \<and>
         spawn_on_tick env ft u_colour u_panel st \<noteq> Inl DivisionByZero \<and>
         getPluginFrame cu env ft u_colour u_panel st \<noteq> Inl DivisionByZero"
proof -
  have pos: "0 < st_n st + 1" using reachable_n_nonneg [OF assms] by simp
  then have s: "spawn_on_tick env ft u_colour u_panel st \<noteq> Inl DivisionByZero"
    using spawn_on_tick_div_fault [of env ft u_colour u_panel st] by auto
  then have "getPluginFrame cu env ft u_colour u_panel st \<noteq> Inl DivisionByZero"
    by (auto simp: getPluginFrame_def split: sum.splits)
  with pos s show ?thesis by simp
qed

theorem divisor_positive_witness:
  "getPluginFrame grey_ColorUtils demo_env (beat_features 100) 0 (9 / 10) init_state
     \<noteq> Inl DivisionByZero \<and>
   getPluginFrame grey_ColorUtils demo_env (beat_features 100) 0 (9 / 10)
     (init_state\<lparr>st_sources := [mk_source 0 0 (15 / 10) 1 (15 / 10)], st_count := 1\<rparr>)
     \<noteq> Inl DivisionByZero"
  using divisor_positive [OF reachable_init [of grey_ColorUtils demo_env],
      of "beat_features 100" 0 "9 / 10"]
    divisor_positive [OF reachable_after_beat [of grey_ColorUtils],
      of "beat_features 100" 0 "9 / 10"]
  by simp


subsection \<open>The pools of a run\<close>

text \<open>What a tick does to the pool before it renders.\<close>

lemma spawn_on_tick_cases:
  assumes "spawn_on_tick env ft u_colour u_panel st = Inr st2"
  obtains (quiet) "st_sources st2 = st_sources st"
  | (spawn) st1 colour intensity speed where "st_sources st1 = st_sources st"
      "addSource env u_panel colour intensity speed (getEnergy ft) st1 = Inr st2"
      "intensity = 1 \<and> speed = 15 / 10 \<or> intensity = 7 / 10 \<and> speed = 8 / 10"
      "f32 colour = colour"
proof (cases "getIsBeat ft")
  case True
  with assms have
    "addSource env u_panel
       (f32 (real_of_int (c_div (c_div (st_maxBinIndexSum st + strongest_bin (getFftBins ft))
          (st_n st + 1) * nColours env) (c_div (int N_FFT_BINS) 4))))
       1 (15 / 10) (getEnergy ft) (st\<lparr>st_maxBinIndexSum := 0, st_n := 0\<rparr>) = Inr st2"
    by (auto simp: spawn_on_tick_def Let_def split: if_splits)
  then show ?thesis by (intro spawn [of "st\<lparr>st_maxBinIndexSum := 0, st_n := 0\<rparr>"]) auto
next
  case False
  show ?thesis
  proof (cases "getIsOnset ft")
    case True
    with assms \<open>\<not> getIsBeat ft\<close> have
      "addSource env u_panel (f32 (f64 (u_colour * real_of_int (nColours env - 1))))
         (7 / 10) (8 / 10) (getEnergy ft)
         (st\<lparr>st_maxBinIndexSum := st_maxBinIndexSum st + strongest_bin (getFftBins ft),
             st_n := st_n st + 1\<rparr>) = Inr st2"
      by (auto simp: spawn_on_tick_def Let_def split: if_splits)
    then show ?thesis
      by (intro spawn [of "st\<lparr>st_maxBinIndexSum := st_maxBinIndexSum st
            + strongest_bin (getFftBins ft), st_n := st_n st + 1\<rparr>"]) auto
  next
    case False
    with assms \<open>\<not> getIsBeat ft\<close> have "st_sources st2 = st_sources st"
      by (auto simp: spawn_on_tick_def Let_def split: if_splits)
    then show ?thesis by (rule quiet)
  qed
qed

lemma distinct_insert_at:
  assumes "distinct xs" and "a \<notin> set xs"
  shows "distinct (take k xs @ a # drop k xs)"
proof -
  have "distinct (take k xs @ drop k xs)" using assms(1) by simp
  then have "distinct (take k xs)" "distinct (drop k xs)"
    "set (take k xs) \<inter> set (drop k xs) = {}"
    unfolding distinct_append by blast+
  then show ?thesis
    using assms(2) by (auto dest: in_set_takeD in_set_dropD)
qed

lemma set_insert_at: "set (take k xs @ a # drop k xs) = insert a (set xs)"
proof -
  have "set (take k xs) \<union> set (drop k xs) = set xs"
    by (metis append_take_drop_id set_append)
  then show ?thesis by auto
qed

lemma pool_timed_evict:
  assumes "pool_timed srcs"
  shows "pool_timed (evict_if_full srcs)"
proof (cases srcs)
  case Nil
  then show ?thesis using assms by (simp add: evict_if_full_def removeSource_def)
next
  case (Cons s rest)
  with assms show ?thesis
    by (auto simp: evict_if_full_def removeSource_def pool_timed_def)
qed

lemma set_evict_if_full: "set (evict_if_full srcs) \<subseteq> set srcs"
  by (auto simp: evict_if_full_def removeSource_def dest: in_set_dropD)

lemma addSource_timed:
  assumes run: "addSource env u colour intensity speed energy st = Inr st'"
    and speed: "speed = 15 / 10 \<or> speed = 8 / 10"
    and timed: "pool_timed (st_sources st)"
    and aged: "\<forall>s\<in>set (st_sources st). 0 < src_diffusion_age s"
  shows "pool_timed (st_sources st')"
proof -
  let ?E = "evict_if_full (st_sources st)"
  have E: "pool_timed ?E" using timed by (rule pool_timed_evict)
  have Eaged: "\<forall>s\<in>set ?E. 0 < src_diffusion_age s"
    using aged set_evict_if_full by blast
  have fresh: "(speed, 0) \<notin> set (map timing ?E)"
    using Eaged by (auto simp: timing_def)
  from run obtain rgb where rgb: "getRGB env colour = Inr rgb"
    by (rule addSource_getRGB)
  show ?thesis
  proof (cases "merge_loop (fst (spawn_position env st)) (snd (spawn_position env st))
               intensity speed ?E")
    case None
    let ?new = "new_source env rgb intensity speed energy st"
    let ?k = "insert_index intensity ?E (length ?E)"
    from run rgb None have st': "st_sources st' = take ?k ?E @ ?new # drop ?k ?E"
      by (auto simp: addSource_unfold split: if_splits)
    have tn: "timing ?new = (speed, 0)" by (simp add: timing_def new_source_def)
    have "distinct (map timing (take ?k ?E @ ?new # drop ?k ?E))"
      using distinct_insert_at [of "map timing ?E" "(speed, 0)" ?k] E fresh tn
      by (simp add: pool_timed_def take_map drop_map)
    moreover have "(src_speed ?new = 15 / 10 \<or> src_speed ?new = 8 / 10) \<and>
        (\<exists>k::nat. src_diffusion_age ?new = src_speed ?new * real k)"
      using speed by (auto simp: new_source_def intro: exI [of _ 0])
    ultimately show ?thesis
      using E unfolding st' pool_timed_def set_insert_at by auto
  next
    case (Some merged)
    from merge_loop_Some [OF Some] obtain i where i: "i < length ?E"
      "merged = ?E[i := (?E ! i)\<lparr>src_diffusion_age := 0, src_intensity := intensity,
                                src_speed := speed\<rparr>]"
      by auto
    let ?m = "(?E ! i)\<lparr>src_diffusion_age := 0, src_intensity := intensity, src_speed := speed\<rparr>"
    from run rgb Some have st': "st_sources st' = merged"
      by (auto simp: addSource_unfold split: if_splits)
    have tm: "timing ?m = (speed, 0)" by (simp add: timing_def)
    have "map timing merged = (map timing ?E)[i := (speed, 0)]"
      using i(2) tm by (simp add: map_update)
    moreover have "distinct ((map timing ?E)[i := (speed, 0)])"
      using E fresh by (intro distinct_list_update) (auto simp: pool_timed_def)
    ultimately have dist: "distinct (map timing merged)" by simp
    have m: "(src_speed ?m = 15 / 10 \<or> src_speed ?m = 8 / 10) \<and>
        (\<exists>k::nat. src_diffusion_age ?m = src_speed ?m * real k)"
      using speed by (auto intro: exI [of _ 0])
    have "set merged \<subseteq> insert ?m (set ?E)"
      unfolding i(2) by (rule set_update_subset_insert)
    with E m have "\<forall>s\<in>set merged. (src_speed s = 15 / 10 \<or> src_speed s = 8 / 10) \<and>
        (\<exists>k::nat. src_diffusion_age s = src_speed s * real k)"
      unfolding pool_timed_def by blast
    with dist show ?thesis unfolding st' pool_timed_def by simp
  qed
qed

lemma spawn_on_tick_timed:
  assumes "spawn_on_tick env ft u_colour u_panel st = Inr st2"
    and "pool_between_ticks (st_sources st)"
  shows "pool_timed (st_sources st2)"
  using assms(1)
proof (cases rule: spawn_on_tick_cases)
  case quiet
  with assms(2) show ?thesis by (simp add: pool_between_ticks_def)
next
  case (spawn st1 colour intensity speed)
  from spawn(3) have "speed = 15 / 10 \<or> speed = 8 / 10" by auto
  from addSource_timed [OF spawn(2) this] assms(2) spawn(1) show ?thesis
    by (simp add: pool_between_ticks_def)
qed

lemma age_sources_timing:
  "map timing (age_sources srcs) = map (\<lambda>t. (fst t, snd t + fst t)) (map timing srcs)"
  by (simp add: age_sources_def timing_def comp_def)

lemma diffuseSources_between_ticks:
  assumes "pool_timed srcs"
  shows "pool_between_ticks (diffuseSources srcs)"
proof -
  have inj: "inj_on (\<lambda>t :: real \<times> real. (fst t, snd t + fst t)) A" for A
    by (auto simp: inj_on_def prod_eq_iff)
  have d0: "distinct (map timing srcs)"
    using assms by (simp add: pool_timed_def)
  from d0 inj have "distinct (map timing srcs) \<and>
      inj_on (\<lambda>t :: real \<times> real. (fst t, snd t + fst t)) (set (map timing srcs))"
    by blast
  then have dist: "distinct (map timing (age_sources srcs))"
    unfolding age_sources_timing by (rule iffD2 [OF distinct_map])
  have each: "(src_speed s = 15 / 10 \<or> src_speed s = 8 / 10) \<and>
      (\<exists>k::nat. src_diffusion_age s = src_speed s * real k) \<and> 0 < src_diffusion_age s"
    if "s \<in> set (age_sources srcs)" for s
  proof -
    from that obtain s0 where s0: "s0 \<in> set srcs"
      and s: "s = s0\<lparr>src_diffusion_age := src_diffusion_age s0 + src_speed s0\<rparr>"
      by (auto simp: age_sources_def)
    from assms s0 obtain k :: nat where sp: "src_speed s0 = 15 / 10 \<or> src_speed s0 = 8 / 10"
      and k: "src_diffusion_age s0 = src_speed s0 * real k"
      by (auto simp: pool_timed_def)
    have age: "src_diffusion_age s = src_speed s * real (Suc k)"
      using k by (simp add: s algebra_simps)
    then have ex: "\<exists>k::nat. src_diffusion_age s = src_speed s * real k" ..
    have "0 < src_speed s * real (Suc k)"
      using sp by (auto simp: s)
    with age have "0 < src_diffusion_age s" by simp
    moreover have "src_speed s = 15 / 10 \<or> src_speed s = 8 / 10"
      using sp by (simp add: s)
    ultimately show ?thesis using ex by blast
  qed
  show ?thesis
  proof (cases "length srcs > 2")
    case True
    then have eq: "diffuseSources srcs =
        filter (\<lambda>s. \<not> src_diffusion_age s > 15) (age_sources srcs)"
      by (simp add: diffuseSources_def Let_def prune_loop_filter MIN_SIMULTANEOUS_COLOURS_def
          MAX_DIFFUSION_AGE_def age_sources_def)
    show ?thesis
      unfolding eq pool_between_ticks_def pool_timed_def
      using dist each by (auto simp: distinct_map_filter)
  next
    case False
    then have eq: "diffuseSources srcs = age_sources srcs"
      by (simp add: diffuseSources_def Let_def MIN_SIMULTANEOUS_COLOURS_def age_sources_def)
    have "length (age_sources srcs) \<le> 2" using False by (simp add: age_sources_def)
    then show ?thesis
      unfolding eq pool_between_ticks_def pool_timed_def
      using dist each by auto
  qed
qed

lemma reachable_between_ticks: "reachable cu env st \<Longrightarrow> pool_between_ticks (st_sources st)"
proof (induction rule: reachable.induct)
  case reachable_init
  show ?case by (simp add: init_state_def pool_between_ticks_def pool_timed_def)
next
  case (reachable_tick st ft u_colour u_panel frames st')
  from reachable_tick.hyps(2) obtain st2 where
    s: "spawn_on_tick env ft u_colour u_panel st = Inr st2"
    and st': "st' = st2\<lparr>st_sources := diffuseSources (st_sources st2)\<rparr>"
    by (auto simp: getPluginFrame_def split: sum.splits)
  from spawn_on_tick_timed [OF s reachable_tick.IH] st' show ?case
    by (simp add: diffuseSources_between_ticks)
qed

text \<open>
  A source between two ticks that passes 15.0 at the next aging is a beat source of age
  15.0 or an onset source of age 14.4.
\<close>

lemma last_aging:
  assumes sp: "src_speed s = 15 / 10 \<or> src_speed s = 8 / 10"
    and k: "src_diffusion_age s = src_speed s * real k"
    and le: "src_diffusion_age s \<le> 15"
    and gt: "15 < src_diffusion_age s + src_speed s"
  shows "timing s = (15 / 10, 15) \<or> timing s = (8 / 10, 72 / 5)"
  using sp
proof
  assume v: "src_speed s = 15 / 10"
  from le gt have "real k \<le> 10" "9 < real k" by (simp_all add: k v)
  then have "k = 10" by linarith
  then show ?thesis by (simp add: timing_def k v)
next
  assume v: "src_speed s = 8 / 10"
  from le gt have "real k < 19" "17 < real k" by (simp_all add: k v)
  then have "k = 18" by linarith
  then show ?thesis by (simp add: timing_def k v)
qed

lemma between_ticks_not_emptied:
  assumes "pool_between_ticks srcs" and "srcs \<noteq> []"
  shows "diffuseSources srcs \<noteq> []"
proof
  assume "diffuseSources srcs = []"
  with assms(2) have big: "2 < length srcs"
    and old: "\<forall>s\<in>set srcs. 15 < src_diffusion_age s + src_speed s"
    by (simp_all add: pruned_to_empty_iff)
  from assms(1) big have le: "\<forall>s\<in>set srcs. src_diffusion_age s \<le> 15"
    by (auto simp: pool_between_ticks_def)
  define T :: "(real \<times> real) set" where "T = {(15 / 10, 15), (8 / 10, 72 / 5)}"
  have "timing s \<in> T" if "s \<in> set srcs" for s
  proof -
    from assms(1) that obtain k :: nat where "src_speed s = 15 / 10 \<or> src_speed s = 8 / 10"
      "src_diffusion_age s = src_speed s * real k"
      by (auto simp: pool_between_ticks_def pool_timed_def)
    from last_aging [OF this] le old that show ?thesis unfolding T_def by blast
  qed
  then have "set (map timing srcs) \<subseteq> T" by auto
  moreover have "finite T" by (simp add: T_def)
  ultimately have "card (set (map timing srcs)) \<le> card T"
    by (intro card_mono)
  also have "\<dots> \<le> 2" by (simp add: T_def card_insert_if)
  finally have "card (set (map timing srcs)) \<le> 2" .
  moreover have "distinct (map timing srcs)"
    using assms(1) by (simp add: pool_between_ticks_def pool_timed_def)
  then have "card (set (map timing srcs)) = length (map timing srcs)"
    by (rule distinct_card)
  ultimately show False using big by simp
qed

text \<open>
  Claim C7. For every pool state containing at least one source that a tick passes to
  \<open>diffuseSources\<close> (any tick, in any state a run from the initial state reaches), the
  pool still contains at least one source after \<open>diffuseSources\<close> returns. The floor of 2
  alone does not give this, since a call empties a pool of more than two sources that
  all pass 15.0 together (\<open>pruned_to_empty_iff\<close>); but a tick touches one source only,
  which is then of age 0 and stays, and the sources of a pool no tick has touched have
  pairwise different timings, so that at most two of them pass 15.0 together.
\<close>

theorem tick_keeps_pool_nonempty:
  assumes "reachable cu env st"
    and "spawn_on_tick env ft u_colour u_panel st = Inr st2"
    and "st_sources st2 \<noteq> []"
  shows "diffuseSources (st_sources st2) \<noteq> []"
  using assms(2)
proof (cases rule: spawn_on_tick_cases)
  case quiet
  with between_ticks_not_emptied [OF reachable_between_ticks [OF assms(1)]] assms(3)
  show ?thesis by simp
next
  case (spawn st1 colour intensity speed)
  from addSource_places [OF spawn(2)] obtain s where s: "s \<in> set (st_sources st2)"
    "src_diffusion_age s = 0" "src_speed s = speed"
    by blast
  with spawn(3) have young: "\<not> 15 < src_diffusion_age s + src_speed s" by auto
  show ?thesis
  proof
    assume "diffuseSources (st_sources st2) = []"
    with assms(3) have "\<forall>s\<in>set (st_sources st2). 15 < src_diffusion_age s + src_speed s"
      by (simp add: pruned_to_empty_iff)
    with s(1) young show False by blast
  qed
qed

theorem tick_keeps_pool_nonempty_witness:
  "reachable grey_ColorUtils demo_env
     (init_state\<lparr>st_sources := [mk_source 0 0 (15 / 10) 1 (15 / 10)], st_count := 1\<rparr>) \<and>
   spawn_on_tick demo_env (onset_features 0) 0 (9 / 10)
     (init_state\<lparr>st_sources := [mk_source 0 0 (15 / 10) 1 (15 / 10)], st_count := 1\<rparr>) =
     Inr (init_state\<lparr>st_sources := [mk_source 0 0 0 (7 / 10) (8 / 10)], st_count := 2,
                      st_n := 1\<rparr>) \<and>
   [mk_source 0 0 0 (7 / 10) (8 / 10)] \<noteq> [] \<and>
   diffuseSources [mk_source 0 0 0 (7 / 10) (8 / 10)] \<noteq> []"
proof -
  let ?st = "init_state\<lparr>st_sources := [mk_source 0 0 (15 / 10) 1 (15 / 10)], st_count := 1\<rparr>"
  let ?st2 = "init_state\<lparr>st_sources := [mk_source 0 0 0 (7 / 10) (8 / 10)], st_count := 2,
                      st_n := 1\<rparr>"
  have r: "reachable grey_ColorUtils demo_env ?st"
    by (rule reachable_after_beat)
  have s: "spawn_on_tick demo_env (onset_features 0) 0 (9 / 10) ?st = Inr ?st2"
    by (simp add: spawn_on_tick_def onset_features_def Let_def strongest_bin_silent
        N_FFT_BINS_def INT_MAX_def INT_MIN_def addSource_unfold demo_defs)
  have n: "st_sources ?st2 \<noteq> []" by simp
  from tick_keeps_pool_nonempty [OF r s n] r s show ?thesis by simp
qed

subsection \<open>Rendering\<close>

lemma distance_nonneg: "0 \<le> distance x1 y1 x2 y2"
  by (simp add: distance_def Let_def)

lemma source_factor_bounds:
  assumes d: "0 \<le> d" and age: "0 \<le> src_diffusion_age s"
  shows "5 / 100 \<le> source_factor d s \<and> source_factor d s \<le> 1"
proof -
  define d2b where "d2b = (if d * (15 / 1000) - src_diffusion_age s * (2 / 10) < 0 then 0
                           else d * (15 / 1000) - src_diffusion_age s * (2 / 10))"
  define factor0 where "factor0 =
     (if uint (src_energy s) \<ge> ENERGY_THRESHOLD then
        (if (if 1 / (d2b * 2 + 1) > 1 then 1 else 1 / (d2b * 2 + 1)) < 0 then 0
         else (if 1 / (d2b * 2 + 1) > 1 then 1 else 1 / (d2b * 2 + 1)))
      else 1 / (d * (8 / 1000) + 1))"
  define factor1 where "factor1 =
     (if src_diffusion_age s \<ge> MAX_DIFFUSION_AGE then 0
      else factor0 * (1 - src_diffusion_age s / MAX_DIFFUSION_AGE))"
  have sf: "source_factor d s =
      (if factor1 < FRACTION_COLOUR_TO_KEEP then FRACTION_COLOUR_TO_KEEP else factor1)"
    by (simp add: source_factor_def Let_def factor1_def factor0_def d2b_def)
  have d2b: "0 \<le> d2b" by (simp add: d2b_def)
  have f0: "0 \<le> factor0 \<and> factor0 \<le> 1"
  proof (cases "uint (src_energy s) \<ge> ENERGY_THRESHOLD")
    case True
    then show ?thesis by (simp add: factor0_def)
  next
    case False
    have "0 < d * (8 / 1000) + 1" and "1 \<le> d * (8 / 1000) + 1" using d by simp_all
    then have "0 \<le> 1 / (d * (8 / 1000) + 1) \<and> 1 / (d * (8 / 1000) + 1) \<le> 1"
      by (simp add: divide_le_eq_1)
    with False show ?thesis by (simp add: factor0_def)
  qed
  have f1: "0 \<le> factor1 \<and> factor1 \<le> 1"
  proof (cases "src_diffusion_age s \<ge> MAX_DIFFUSION_AGE")
    case True
    then show ?thesis by (simp add: factor1_def)
  next
    case False
    then have k: "0 \<le> 1 - src_diffusion_age s / MAX_DIFFUSION_AGE"
        "1 - src_diffusion_age s / MAX_DIFFUSION_AGE \<le> 1"
      using age by (simp_all add: MAX_DIFFUSION_AGE_def)
    have "0 \<le> factor0 * (1 - src_diffusion_age s / MAX_DIFFUSION_AGE)"
      using f0 k by simp
    moreover have "factor0 * (1 - src_diffusion_age s / MAX_DIFFUSION_AGE) \<le> 1 * 1"
      using f0 k by (intro mult_mono) simp_all
    ultimately show ?thesis using False by (simp add: factor1_def)
  qed
  show ?thesis using f1 by (simp add: sf FRACTION_COLOUR_TO_KEEP_def)
qed

lemma blend_nonneg:
  fixes c f :: real
  assumes "0 \<le> c" "0 \<le> k" "0 \<le> f" "f \<le> 1"
  shows "0 \<le> c * (1 - f) + real_of_int k * f"
  using assms by simp

lemma c_mod_360_range: "0 \<le> a \<Longrightarrow> 0 \<le> c_mod a 360 \<and> c_mod a 360 < 360"
  by (cases "a = 0") (simp_all add: c_mod_def)

lemma render_source_nonneg:
  assumes cu: "ColorUtils_contract cu" and ok: "source_ok s" and c: "colour_nonneg c"
  shows "colour_nonneg (render_source cu panel c s)"
proof -
  obtain R G B where cRGB: "c = (R, G, B)" by (cases c) auto
  define d where "d = distance (centroid_x panel) (centroid_y panel) (src_x s) (src_y s)"
  define f where "f = source_factor d s"
  define rgb1 where "rgb1 = \<lparr>rgb_R = c_int (R * (1 - f) + real_of_int (src_R s) * f),
      rgb_G = c_int (G * (1 - f) + real_of_int (src_G s) * f),
      rgb_B = c_int (B * (1 - f) + real_of_int (src_B s) * f)\<rparr>"
  define hsv where "hsv = RGBtoHSV cu rgb1"
  define hsv2 where "hsv2 = hsv\<lparr>hsv_H := c_mod (hsv_H hsv + c_int (d * (10 / 100))) 360,
      hsv_V := c_mod (hsv_V hsv + 10) 360\<rparr>"
  have d: "0 \<le> d" by (simp add: d_def distance_nonneg)
  have f: "0 \<le> f" "f \<le> 1"
    using source_factor_bounds [OF d, of s] ok by (simp_all add: f_def source_ok_def)
  have "rgb_nonneg rgb1"
    using c ok f unfolding rgb_nonneg_def rgb1_def cRGB colour_nonneg_def source_ok_def
    by (auto intro!: c_int_nonneg blend_nonneg)
  with cu have h: "0 \<le> hsv_H hsv" "0 \<le> hsv_S hsv" "hsv_S hsv \<le> 100" "0 \<le> hsv_V hsv"
    by (auto simp: ColorUtils_contract_def hsv_def)
  have df: "0 \<le> c_int (d * (10 / 100))" using d by (intro c_int_nonneg) simp
  have "hsv_in_range hsv2"
    using h df c_mod_360_range [of "hsv_H hsv + c_int (d * (10 / 100))"]
      c_mod_360_range [of "hsv_V hsv + 10"]
    by (simp add: hsv_in_range_def hsv2_def)
  with cu have "rgb_nonneg (HSVtoRGB cu hsv2)"
    by (auto simp: ColorUtils_contract_def)
  moreover have "render_source cu panel c s =
      (real_of_int (rgb_R (HSVtoRGB cu hsv2)), real_of_int (rgb_G (HSVtoRGB cu hsv2)),
       real_of_int (rgb_B (HSVtoRGB cu hsv2)))"
    by (simp add: render_source_def cRGB Let_def hsv2_def hsv_def rgb1_def f_def d_def)
  ultimately show ?thesis by (simp add: colour_nonneg_def rgb_nonneg_def)
qed

lemma render_fold_nonneg:
  "ColorUtils_contract cu \<Longrightarrow> list_all source_ok srcs \<Longrightarrow> colour_nonneg c \<Longrightarrow>
   colour_nonneg (foldl (render_source cu panel) c srcs)"
  by (induction srcs arbitrary: c) (simp_all add: render_source_nonneg)

lemma renderPanel_upper:
  "fst (renderPanel cu panel srcs) \<le> 255 \<and> fst (snd (renderPanel cu panel srcs)) \<le> 255 \<and>
   snd (snd (renderPanel cu panel srcs)) \<le> 255"
  by (cases "foldl (render_source cu panel) (0, 0, 0) srcs")
     (simp add: renderPanel_def Let_def)

lemma renderPanel_bounds:
  assumes "ColorUtils_contract cu" and "list_all source_ok srcs"
  shows "channels_in_range (renderPanel cu panel srcs)"
proof -
  have "colour_nonneg (foldl (render_source cu panel) (0, 0, 0) srcs)"
    using assms by (intro render_fold_nonneg) (simp_all add: colour_nonneg_def)
  then show ?thesis
    by (cases "foldl (render_source cu panel) (0, 0, 0) srcs")
       (auto simp: renderPanel_def Let_def colour_nonneg_def channels_in_range_def
          intro: c_int_nonneg)
qed

lemma render_frames_bounds:
  assumes "ColorUtils_contract cu" and "list_all source_ok srcs"
  shows "list_all frame_in_range (render_frames cu env srcs)"
proof -
  have "frame_in_range (case renderPanel cu p srcs of (R, G, B) \<Rightarrow>
            \<lparr>fr_panelId = panelId p, fr_r = R, fr_g = G, fr_b = B,
             fr_transTime = TRANSITION_TIME\<rparr>)" for p
    using renderPanel_bounds [OF assms, of p]
    by (cases "renderPanel cu p srcs") (simp add: channels_in_range_def frame_in_range_def)
  then show ?thesis
    by (simp add: render_frames_def list_all_iff)
qed

lemma palette_nth_nonneg:
  "palette_nonneg env \<Longrightarrow> i < length (paletteColours env) \<Longrightarrow>
   rgb_nonneg (paletteColours env ! i)"
  by (simp add: palette_nonneg_def list_all_length)

text \<open>
  The colour \<open>getRGB\<close> returns for an index that is a \<^verbatim>\<open>float\<close> has no negative channel: a
  stop passes through \<^verbatim>\<open>float\<close>, and between two stops the fraction lies in [0, 1].
\<close>

lemma stop_float_nonneg:
  assumes "palette_nonneg env" and "i < length (paletteColours env)"
  shows "0 \<le> f32 (real_of_int (rgb_R (paletteColours env ! i)))"
    and "0 \<le> f32 (real_of_int (rgb_G (paletteColours env ! i)))"
    and "0 \<le> f32 (real_of_int (rgb_B (paletteColours env ! i)))"
  using palette_nth_nonneg [OF assms] by (simp_all add: rgb_nonneg_def f32_nonneg)

lemma float_blend_nonneg:
  assumes "0 \<le> fraction" and "fraction \<le> 1" and "0 \<le> a" and "0 \<le> b"
  shows "0 \<le> f32 (f64 (f64 (f64 (1 - fraction) * a) + f32 (fraction * b)))"
  using assms
  by (intro f32_nonneg f64_nonneg add_nonneg_nonneg mult_nonneg_nonneg) simp_all

lemma getRGB_nonneg:
  assumes pal: "palette_nonneg env" and fl: "f32 colour = colour"
    and ret: "getRGB env colour = Inr rgb"
  shows "0 \<le> fst rgb \<and> 0 \<le> fst (snd rgb) \<and> 0 \<le> snd (snd rgb)"
proof -
  consider (empty) "paletteColours env = []"
    | (single) "length (paletteColours env) = 1"
    | (low) "2 \<le> length (paletteColours env)" "colour \<le> 0"
    | (high) "2 \<le> length (paletteColours env)" "0 < colour"
        "int (length (paletteColours env)) - 1 \<le> \<lfloor>colour\<rfloor>"
    | (mid) "2 \<le> length (paletteColours env)" "0 < colour"
        "\<lfloor>colour\<rfloor> < int (length (paletteColours env)) - 1"
    by (cases "paletteColours env") (auto simp: not_le not_less Suc_le_eq, linarith)
  then show ?thesis
  proof cases
    case empty
    with ret show ?thesis by (auto simp: getRGB_empty)
  next
    case single
    with ret show ?thesis
      using palette_nth_nonneg [OF pal, of 0]
      by (auto simp: getRGB_single rgb_triple_def rgb_nonneg_def)
  next
    case low
    then have "0 < length (paletteColours env)" by linarith
    note s = stop_float_nonneg [OF pal this]
    from ret low have "rgb =
        (c_int (f32 (real_of_int (rgb_R (paletteColours env ! 0)))),
         c_int (f32 (real_of_int (rgb_G (paletteColours env ! 0)))),
         c_int (f32 (real_of_int (rgb_B (paletteColours env ! 0)))))"
      by (auto simp: getRGB_def nColours_def Let_def split: if_splits)
    with s show ?thesis by (simp add: c_int_nonneg)
  next
    case high
    then have "length (paletteColours env) - 1 < length (paletteColours env)" by linarith
    note s = stop_float_nonneg [OF pal this]
    have idx: "c_int colour = \<lfloor>colour\<rfloor>" using high(2) by (simp add: c_int_def)
    have n: "nat (int (length (paletteColours env)) - 1) = length (paletteColours env) - 1"
      by simp
    from ret high idx have "rgb =
        (c_int (f32 (real_of_int (rgb_R (paletteColours env ! (length (paletteColours env) - 1))))),
         c_int (f32 (real_of_int (rgb_G (paletteColours env ! (length (paletteColours env) - 1))))),
         c_int (f32 (real_of_int (rgb_B (paletteColours env ! (length (paletteColours env) - 1))))))"
      by (auto simp: getRGB_def nColours_def Let_def n split: if_splits)
    with s show ?thesis by (simp add: c_int_nonneg)
  next
    case mid
    have idx: "c_int colour = \<lfloor>colour\<rfloor>" using mid(2) by (simp add: c_int_def)
    have nn: "0 \<le> \<lfloor>colour\<rfloor>" using mid(2) by simp
    have i1: "nat \<lfloor>colour\<rfloor> < length (paletteColours env)"
      and i2: "Suc (nat \<lfloor>colour\<rfloor>) < length (paletteColours env)"
      using mid(3) nn by linarith+
    have suc: "nat (\<lfloor>colour\<rfloor> + 1) = Suc (nat \<lfloor>colour\<rfloor>)" using nn by linarith
    note s1 = stop_float_nonneg [OF pal i1]
    note s2 = stop_float_nonneg [OF pal i2]
    note fr = float_fraction_unit [OF fl mid(2)]
    let ?f = "f32 (colour - f32 (real_of_int \<lfloor>colour\<rfloor>))"
    have branch: "\<not> colour \<le> 0" "\<lfloor>colour\<rfloor> < nColours env - 1" "nColours env \<noteq> 0"
      "nColours env \<noteq> 1"
      using mid by (auto simp: nColours_def)
    from ret have "rgb =
        (c_int (f32 (f64 (f64 (f64 (1 - ?f)
              * f32 (real_of_int (rgb_R (paletteColours env ! nat \<lfloor>colour\<rfloor>))))
            + f32 (?f * f32 (real_of_int (rgb_R (paletteColours env ! Suc (nat \<lfloor>colour\<rfloor>)))))))),
         c_int (f32 (f64 (f64 (f64 (1 - ?f)
              * f32 (real_of_int (rgb_G (paletteColours env ! nat \<lfloor>colour\<rfloor>))))
            + f32 (?f * f32 (real_of_int (rgb_G (paletteColours env ! Suc (nat \<lfloor>colour\<rfloor>)))))))),
         c_int (f32 (f64 (f64 (f64 (1 - ?f)
              * f32 (real_of_int (rgb_B (paletteColours env ! nat \<lfloor>colour\<rfloor>))))
            + f32 (?f * f32 (real_of_int (rgb_B (paletteColours env ! Suc (nat \<lfloor>colour\<rfloor>)))))))))"
      by (simp add: getRGB_def Let_def branch idx suc split: if_splits)
    then show ?thesis
      using fr s1 s2 by (simp add: c_int_nonneg float_blend_nonneg)
  qed
qed

lemma new_source_ok:
  assumes "0 \<le> fst rgb \<and> 0 \<le> fst (snd rgb) \<and> 0 \<le> snd (snd rgb)"
    and "0 \<le> intensity" and "0 \<le> speed"
  shows "source_ok (new_source env rgb intensity speed energy st)"
  using assms by (auto simp: source_ok_def new_source_def intro!: c_int_nonneg)

lemma evict_if_full_ok: "list_all source_ok srcs \<Longrightarrow> list_all source_ok (evict_if_full srcs)"
  by (cases srcs) (auto simp: evict_if_full_def removeSource_def drop_Suc)

lemma merge_loop_ok:
  "merge_loop x y intensity speed srcs = Some merged \<Longrightarrow> 0 \<le> speed \<Longrightarrow>
   list_all source_ok srcs \<Longrightarrow> list_all source_ok merged"
  by (induction srcs arbitrary: merged) (auto simp: source_ok_def split: if_splits)

lemma addSource_ok:
  assumes run: "addSource env u colour intensity speed energy st = Inr st'"
    and pal: "palette_nonneg env" and fl: "f32 colour = colour"
    and i: "0 \<le> intensity" and s: "0 \<le> speed"
    and ok: "list_all source_ok (st_sources st)"
  shows "list_all source_ok (st_sources st')"
proof -
  from run obtain rgb where rgb: "getRGB env colour = Inr rgb"
    by (rule addSource_getRGB)
  show ?thesis
  proof (cases "merge_loop (fst (spawn_position env st)) (snd (spawn_position env st))
               intensity speed (evict_if_full (st_sources st))")
    case None
    have "list_all source_ok (take k (evict_if_full (st_sources st))
        @ new_source env rgb intensity speed energy st
        # drop k (evict_if_full (st_sources st)))" for k
      using evict_if_full_ok [OF ok] new_source_ok [OF getRGB_nonneg [OF pal fl rgb] i s]
      by (auto simp: list_all_iff dest: in_set_takeD in_set_dropD)
    with run None rgb show ?thesis
      by (auto simp: addSource_unfold split: if_splits)
  next
    case (Some merged)
    from merge_loop_ok [OF Some s evict_if_full_ok [OF ok]] run Some rgb show ?thesis
      by (auto simp: addSource_unfold split: if_splits)
  qed
qed

lemma diffuseSources_ok: "list_all source_ok srcs \<Longrightarrow> list_all source_ok (diffuseSources srcs)"
  by (auto simp: diffuseSources_def Let_def age_sources_def prune_loop_filter list_all_iff
      source_ok_def)

lemma spawn_on_tick_ok:
  assumes run: "spawn_on_tick env ft u_colour u_panel st = Inr st2"
    and pal: "palette_nonneg env" and ok: "list_all source_ok (st_sources st)"
  shows "list_all source_ok (st_sources st2)"
  using run
proof (cases rule: spawn_on_tick_cases)
  case quiet
  with ok show ?thesis by simp
next
  case (spawn st1 colour intensity speed)
  from spawn(3) have "0 \<le> intensity" "0 \<le> speed" by auto
  from addSource_ok [OF spawn(2) pal spawn(4) this] ok spawn(1) show ?thesis by simp
qed

lemma reachable_ok:
  assumes "reachable cu env st" and pal: "palette_nonneg env"
  shows "list_all source_ok (st_sources st)"
  using assms(1)
proof (induction rule: reachable.induct)
  case reachable_init
  show ?case by (simp add: init_state_def)
next
  case (reachable_tick st ft u_colour u_panel frames st')
  from reachable_tick.hyps(2) obtain st2 where
    s: "spawn_on_tick env ft u_colour u_panel st = Inr st2"
    and st': "st' = st2\<lparr>st_sources := diffuseSources (st_sources st2)\<rparr>"
    by (auto simp: getPluginFrame_def split: sum.splits)
  from spawn_on_tick_ok [OF s pal reachable_tick.IH] st' show ?case
    by (simp add: diffuseSources_ok)
qed

lemma grey_ColorUtils_contract: "ColorUtils_contract grey_ColorUtils"
  by (auto simp: ColorUtils_contract_def grey_ColorUtils_def rgb_nonneg_def hsv_in_range_def
      pos_imp_zdiv_nonneg_iff intro!: mult_nonneg_nonneg)

lemma demo_palette_nonneg: "palette_nonneg demo_env"
  by (simp add: palette_nonneg_def demo_env_def demo_palette_def rgb_nonneg_def)

text \<open>
  Claim C9. For every panel and every pool state the ticks can reach, each of the three
  channels \<open>renderPanel\<close> returns lies within [0, 255]: on the pool of every state a run
  from the initial state reaches between two ticks, on the pool that a tick renders
  (after the tick's \<open>addSource\<close> call and before its aging), and so in every frame that
  \<open>getPluginFrame\<close> returns. The upper bound is the clamp (\<open>renderPanel_upper\<close>, for every
  pool); the lower bound follows from the blend factors lying in [0.05, 1] and all inputs
  being non-negative, given a palette without negative channels and colour conversions
  that obey their contract.
\<close>

theorem renderPanel_channels_in_range:
  assumes "ColorUtils_contract cu" and "palette_nonneg env" and "reachable cu env st"
  shows "channels_in_range (renderPanel cu panel (st_sources st)) \<and>
         (spawn_on_tick env ft u_colour u_panel st = Inr st2 \<longrightarrow>
            channels_in_range (renderPanel cu panel (st_sources st2))) \<and>
         (getPluginFrame cu env ft u_colour u_panel st = Inr (frames, st') \<longrightarrow>
            list_all frame_in_range frames)"
proof (intro conjI impI)
  note ok = reachable_ok [OF assms(3,2)]
  show "channels_in_range (renderPanel cu panel (st_sources st))"
    using renderPanel_bounds [OF assms(1) ok] .
  show "channels_in_range (renderPanel cu panel (st_sources st2))"
    if "spawn_on_tick env ft u_colour u_panel st = Inr st2"
    using renderPanel_bounds [OF assms(1) spawn_on_tick_ok [OF that assms(2) ok]] .
  show "list_all frame_in_range frames"
    if "getPluginFrame cu env ft u_colour u_panel st = Inr (frames, st')"
  proof -
    from that obtain s2 where s: "spawn_on_tick env ft u_colour u_panel st = Inr s2"
      and f: "frames = render_frames cu env (st_sources s2)"
      by (auto simp: getPluginFrame_def split: sum.splits)
    from render_frames_bounds [OF assms(1) spawn_on_tick_ok [OF s assms(2) ok]] f
    show ?thesis by simp
  qed
qed

theorem renderPanel_channels_in_range_witness:
  "channels_in_range (renderPanel grey_ColorUtils (demo_panels ! 1) (st_sources init_state)) \<and>
   spawn_on_tick demo_env (beat_features 100) 0 (9 / 10) init_state =
     Inr (init_state\<lparr>st_sources := [mk_source 0 0 0 1 (15 / 10)], st_count := 1\<rparr>) \<and>
   channels_in_range (renderPanel grey_ColorUtils (demo_panels ! 1)
     [mk_source 0 0 0 1 (15 / 10)]) \<and>
   getPluginFrame grey_ColorUtils demo_env (beat_features 100) 0 (9 / 10) init_state =
     Inr (render_frames grey_ColorUtils demo_env [mk_source 0 0 0 1 (15 / 10)],
          init_state\<lparr>st_sources := [mk_source 0 0 (15 / 10) 1 (15 / 10)], st_count := 1\<rparr>) \<and>
   list_all frame_in_range (render_frames grey_ColorUtils demo_env [mk_source 0 0 0 1 (15 / 10)])"
proof -
  let ?st2 = "init_state\<lparr>st_sources := [mk_source 0 0 0 1 (15 / 10)], st_count := 1\<rparr>"
  have s: "spawn_on_tick demo_env (beat_features 100) 0 (9 / 10) init_state = Inr ?st2"
    by (simp add: spawn_on_tick_def beat_features_def Let_def strongest_bin_silent
        N_FFT_BINS_def INT_MAX_def INT_MIN_def c_div_def addSource_unfold demo_defs)
  note t = first_beat_tick [of grey_ColorUtils]
  from renderPanel_channels_in_range [OF grey_ColorUtils_contract demo_palette_nonneg
      reachable_init, of "demo_panels ! 1" "beat_features 100" 0 "9 / 10" ?st2
      "render_frames grey_ColorUtils demo_env [mk_source 0 0 0 1 (15 / 10)]"
      "init_state\<lparr>st_sources := [mk_source 0 0 (15 / 10) 1 (15 / 10)], st_count := 1\<rparr>"]
    s t
  show ?thesis by simp
qed


end
